theory Spec2Isabelle
  imports Main
begin

section \<open>Python strings\<close>

text \<open>
  A Python \<open>str\<close> is modelled as a \<open>string\<close>: the characters are the code points
  below 256. On that range the regular expression class \<open>\d\<close> (Unicode decimal digits)
  is exactly \<open>0\<close>..\<open>9\<close>, \<open>str.isspace\<close> holds for the twelve characters listed in
  \<open>is_space\<close>, and the only characters that match a letter of \<open>result\<close> under
  \<open>re.IGNORECASE\<close> are its lower-case and upper-case forms.
\<close>

definition is_digit :: "char \<Rightarrow> bool" where
  "is_digit c = (c \<in> set ''0123456789'')"

definition is_space :: "char \<Rightarrow> bool" where
  "is_space c = ((of_char c :: nat) \<in> set [9, 10, 11, 12, 13, 28, 29, 30, 31, 32, 133, 160])"

text \<open>\<open>s.strip()\<close>: leading and trailing whitespace removed.\<close>

definition strip :: "string \<Rightarrow> string" where
  "strip s = rev (dropWhile is_space (rev (dropWhile is_space s)))"

text \<open>\<open>s.startswith(p)\<close> and \<open>p in s\<close>.\<close>

fun starts_with :: "string \<Rightarrow> string \<Rightarrow> bool" where
  "starts_with [] s = True"
| "starts_with (p # ps) [] = False"
| "starts_with (p # ps) (c # cs) = (p = c \<and> starts_with ps cs)"

fun contains :: "string \<Rightarrow> string \<Rightarrow> bool" where
  "contains p [] = starts_with p []"
| "contains p (c # cs) = (starts_with p (c # cs) \<or> contains p cs)"

text \<open>Lower-casing of the ASCII letters, for the case-insensitive match of a literal.\<close>

definition to_lower :: "char \<Rightarrow> char" where
  "to_lower c =
     (if 65 \<le> (of_char c :: nat) \<and> (of_char c :: nat) \<le> 90 then char_of (of_char c + (32 :: nat)) else c)"

fun starts_with_ci :: "string \<Rightarrow> string \<Rightarrow> bool" where
  "starts_with_ci [] s = True"
| "starts_with_ci (p # ps) [] = False"
| "starts_with_ci (p # ps) (c # cs) = (to_lower p = to_lower c \<and> starts_with_ci ps cs)"

text \<open>\<open>str(n)\<close> for a natural number, and the two-digit, zero-padded form of \<open>%d\<close>.\<close>

definition digit_char :: "nat \<Rightarrow> char" where
  "digit_char n = char_of (48 + n mod 10)"

function show_nat :: "nat \<Rightarrow> string" where
  "show_nat n = (if n < 10 then [digit_char n] else show_nat (n div 10) @ [digit_char n])"
  by pat_completeness auto
termination
  by (relation "measure id") auto

declare show_nat.simps [simp del]

definition two_digits :: "nat \<Rightarrow> string" where
  "two_digits n = [digit_char (n div 10), digit_char n]"

section \<open>The result-stats pattern\<close>

text \<open>
  \<open>re.search(r'([\d,]+) result', stats_text, re.IGNORECASE)\<close>. The search tries the start
  positions from left to right. At one position the group \<open>[\d,]+\<close> is greedy: it first
  takes the whole run of digits and commas and gives characters back one at a time (never
  fewer than one) until the literal \<open>" result"\<close> follows. The value is group 1 of the
  match, or \<open>None\<close> when no position matches.
\<close>

definition is_count_char :: "char \<Rightarrow> bool" where
  "is_count_char c = (is_digit c \<or> c = CHR '','')"

fun match_group :: "nat \<Rightarrow> string \<Rightarrow> string option" where
  "match_group 0 s = None"
| "match_group (Suc k) s =
     (if starts_with_ci '' result'' (drop (Suc k) s) then Some (take (Suc k) s)
      else match_group k s)"

definition match_here :: "string \<Rightarrow> string option" where
  "match_here s = match_group (length (takeWhile is_count_char s)) s"

fun re_search_count :: "string \<Rightarrow> string option" where
  "re_search_count [] = match_here []"
| "re_search_count (c # cs) =
     (case match_here (c # cs) of Some g \<Rightarrow> Some g | None \<Rightarrow> re_search_count cs)"

section \<open>The date header scan\<close>

text \<open>
  A header cell is date-like when \<open>re.search(r'\d', cell_value)\<close> finds a digit and the cell
  contains \<open>-\<close> or \<open>/\<close>. The loop of \<open>prepare_sheet_and_get_target_column\<close> runs over
  \<open>enumerate(date_row_values)\<close> and keeps \<open>i + 1\<close> of the last date-like cell, starting
  from 0.
\<close>

definition is_date_header :: "string \<Rightarrow> bool" where
  "is_date_header cell_value =
     (list_ex is_digit cell_value \<and> (CHR ''-'' \<in> set cell_value \<or> CHR ''/'' \<in> set cell_value))"

fun scan_headers :: "nat \<Rightarrow> nat \<Rightarrow> string list \<Rightarrow> nat" where
  "scan_headers i last_col [] = last_col"
| "scan_headers i last_col (cell_value # rest) =
     scan_headers (Suc i) (if is_date_header cell_value then i + 1 else last_col) rest"

definition last_tracking_col_index :: "string list \<Rightarrow> nat" where
  "last_tracking_col_index date_row_values = scan_headers 0 0 date_row_values"

section \<open>Configuration, exceptions and the observable state\<close>

text \<open>
  The script's own constants. \<open>PDP_QUERIES_COLUMN\<close> is the letter \<open>D\<close>, column 4.
\<close>

definition PDP_QUERIES_COLUMN :: nat where "PDP_QUERIES_COLUMN = 4"
definition PDP_START_ROW :: nat where "PDP_START_ROW = 4"
definition PDP_END_ROW :: nat where "PDP_END_ROW = 32"
definition DATE_HEADER_ROW :: nat where "DATE_HEADER_ROW = 2"
definition NO_RESULTS_TEXT :: string where "NO_RESULTS_TEXT = ''No results found for''"

text \<open>
  The module \<open>config\<close> is imported by the script and is not part of it: the settings
  that the modelled functions read are a parameter. The timeout is a whole number of
  seconds. The poll interval is the length of the pause between two polls: it decides no
  branch, and shows only in the clock readings that follow the pause.
\<close>

record config =
  ENABLE_EMAIL_NOTIFICATIONS :: bool
  CAPTCHA_WAIT_TIMEOUT :: nat
  CAPTCHA_CHECK_INTERVAL :: nat

text \<open>
  An exception is a value: its class as far as an \<open>except\<close> clause of the script tells
  classes apart, \<open>str(e)\<close> and the text \<open>traceback.format_exc()\<close> prints for it. Every
  class modelled derives from \<open>Exception\<close>.
\<close>

datatype exn_class = TimeoutException | ElementClickInterceptedException | OtherException

record py_exn =
  exn_cls :: exn_class
  exn_msg :: string
  exn_trace :: string

text \<open>
  The worksheet: the text of every cell, by (row, column) from 1, with the empty string
  for a blank cell, and the width of the grid. \<open>row_values\<close> and \<open>get\<close> return what the
  spreadsheet service returns: trailing blanks are left out, and a blank row inside a
  one-column range is the empty list.
\<close>

record worksheet =
  cells :: "nat \<times> nat \<Rightarrow> string"
  col_count :: nat

definition strip_trailing :: "'a \<Rightarrow> 'a list \<Rightarrow> 'a list" where
  "strip_trailing blank xs = rev (dropWhile (\<lambda>x. x = blank) (rev xs))"

definition row_values :: "worksheet \<Rightarrow> nat \<Rightarrow> string list" where
  "row_values ws r = strip_trailing [] (map (\<lambda>c. cells ws (r, c)) [1..<Suc (col_count ws)])"

definition get_values :: "worksheet \<Rightarrow> nat \<Rightarrow> nat \<Rightarrow> nat \<Rightarrow> string list list" where
  "get_values ws c first_row last_row =
     strip_trailing []
       (map (\<lambda>r. if cells ws (r, c) = [] then [] else [cells ws (r, c)]) [first_row..<Suc last_row])"

definition insert_cols :: "nat \<Rightarrow> worksheet \<Rightarrow> worksheet" where
  "insert_cols col ws =
     ws\<lparr>cells := (\<lambda>(r, c). if c < col then cells ws (r, c)
                            else if c = col then [] else cells ws (r, c - 1)),
        col_count := Suc (col_count ws)\<rparr>"

definition update_cell :: "nat \<Rightarrow> nat \<Rightarrow> string \<Rightarrow> worksheet \<Rightarrow> worksheet" where
  "update_cell r c v ws = ws\<lparr>cells := (cells ws)((r, c) := v)\<rparr>"

text \<open>
  What a run leaves behind: the worksheet and the calls that changed it, the messages handed
  to the mail server, the log records of level WARNING and above (the INFO records and the
  console output are left out), the operations invoked on the browser, and the state of the
  variable \<open>driver\<close> of \<open>main\<close>. Pauses (\<open>time.sleep\<close>) change nothing of it.
\<close>

datatype sheet_call = InsertCols nat | UpdateCell nat nat string

datatype log_level = WARNING | ERROR | CRITICAL

datatype browser_op =
  Get string | FindSearchBox | TypeText string | PressReturn | PageSource
  | ClickTools | ReadStats | Quit

datatype driver_state = DriverNone | DriverRunning | DriverQuit

record world =
  sheet :: worksheet
  sheet_calls :: "sheet_call list"
  emails :: "(string \<times> string) list"
  logs :: "(log_level \<times> string) list"
  browser_ops :: "browser_op list"
  driver :: driver_state

definition logging :: "log_level \<Rightarrow> string \<Rightarrow> world \<Rightarrow> world" where
  "logging lvl message w = w\<lparr>logs := logs w @ [(lvl, message)]\<rparr>"

definition browser :: "browser_op \<Rightarrow> world \<Rightarrow> world" where
  "browser op' w = w\<lparr>browser_ops := browser_ops w @ [op']\<rparr>"

definition ws_insert_cols :: "nat \<Rightarrow> world \<Rightarrow> world" where
  "ws_insert_cols col w =
     w\<lparr>sheet := insert_cols col (sheet w), sheet_calls := sheet_calls w @ [InsertCols col]\<rparr>"

definition ws_update_cell :: "nat \<Rightarrow> nat \<Rightarrow> string \<Rightarrow> world \<Rightarrow> world" where
  "ws_update_cell r c v w =
     w\<lparr>sheet := update_cell r c v (sheet w), sheet_calls := sheet_calls w @ [UpdateCell r c v]\<rparr>"

text \<open>
  \<open>send_error_email\<close> returns at once when notifications are switched off. Otherwise it
  hands one message to the mail server; a failure of the transport is caught inside the
  function and is not modelled.
\<close>

definition send_error_email :: "config \<Rightarrow> string \<Rightarrow> string \<Rightarrow> world \<Rightarrow> world" where
  "send_error_email cfg subject body w =
     (if \<not> ENABLE_EMAIL_NOTIFICATIONS cfg then w
      else w\<lparr>emails := emails w @ [(subject, body)]\<rparr>)"

text \<open>
  What the browser does while one query is processed is an input of the model: the
  exception each bounded wait or call raises (if any), the page source at each read, and
  the text of the result-stats element. A read of \<open>driver.page_source\<close> itself never
  fails, and a condition that reads it twice sees one value: the operation \<open>PageSource\<close>
  stands for one evaluated condition on the page source (in the CAPTCHA handler, one poll).
  \<open>captcha_source pg k\<close> is the page source at poll \<open>k\<close> of the handler, from 0.

  The wall clock is an input as well. \<open>captcha_clock pg\<close> lists the values of
  \<open>time.time() - start_time\<close> that the successive evaluations of the loop condition of
  \<open>handle_captcha\<close> read: whatever time the page reads, the notification and the pauses
  took is in these readings. A reading is given in whole seconds, rounded down: against a
  timeout of a whole number of seconds the comparison \<open><\<close> gives the same answer for the
  rounded reading. The wall clock goes on, so only finitely many readings lie below the
  timeout; a list that ends before a reading at or past the timeout stands for a clock that
  is past the timeout at the next evaluation.
\<close>

record page =
  nav_result :: "py_exn option"
  box_result :: "py_exn option"
  loaded_source :: string
  captcha_source :: "nat \<Rightarrow> string"
  captcha_clock :: "nat list"
  tools_result :: "py_exn option"
  stats_result :: "py_exn + string"
  fallback_source :: string
  write_result :: "py_exn option"

section \<open>The helper functions\<close>

definition quote :: string where "quote = [CHR 0x22]"
definition newline :: string where "newline = [CHR 0x0A]"

definition captcha_subject :: string where
  "captcha_subject = ''PDP Checker Alert: CAPTCHA - Action Required''"

definition captcha_body :: "string \<Rightarrow> string" where
  "captcha_body keyword =
     ''Hello,'' @ newline @ newline
     @ ''The PDP Checker script has encountered a Google CAPTCHA.'' @ newline @ newline
     @ ''Keyword: '' @ quote @ keyword @ quote @ newline @ newline
     @ ''Please solve the security check in the browser. The script will automatically resume.''
     @ newline @ newline @ ''- Automated System''"

definition blocked :: "string \<Rightarrow> bool" where
  "blocked page_source = (contains ''reCAPTCHA'' page_source \<or> contains ''unusual traffic'' page_source)"

text \<open>
  The block \<open>if not alert_sent: ...\<close> of the loop: the operator prompt (console output, not
  modelled) and the notification, once.
\<close>

definition alert_once :: "config \<Rightarrow> string \<Rightarrow> bool \<Rightarrow> world \<Rightarrow> world" where
  "alert_once cfg keyword alert_sent w =
     (if alert_sent then w else send_error_email cfg captcha_subject (captcha_body keyword) w)"

definition captcha_timeout_log :: "config \<Rightarrow> string" where
  "captcha_timeout_log cfg =
     ''CAPTCHA Timeout! Waited for '' @ show_nat (CAPTCHA_WAIT_TIMEOUT cfg) @ '' seconds.''"

text \<open>
  The loop of \<open>handle_captcha\<close>, at poll \<open>k\<close>, with the clock readings still to come. Each
  evaluation of the loop condition takes the next reading \<open>elapsed\<close> and compares it with
  the timeout; the pause \<open>time.sleep(config.CAPTCHA_CHECK_INTERVAL)\<close> at the end of a pass
  changes nothing but the later readings.
\<close>

fun captcha_loop ::
  "config \<Rightarrow> page \<Rightarrow> string \<Rightarrow> nat \<Rightarrow> nat list \<Rightarrow> bool \<Rightarrow> world \<Rightarrow> bool \<times> world" where
  "captcha_loop cfg pg keyword k [] alert_sent w =
     (False, logging ERROR (captcha_timeout_log cfg) w)"
| "captcha_loop cfg pg keyword k (elapsed # later) alert_sent w =
     (if elapsed < CAPTCHA_WAIT_TIMEOUT cfg then
        (if \<not> blocked (captcha_source pg k) then (True, browser PageSource w)
         else captcha_loop cfg pg keyword (Suc k) later True
                (alert_once cfg keyword alert_sent (browser PageSource w)))
      else (False, logging ERROR (captcha_timeout_log cfg) w))"

definition handle_captcha :: "config \<Rightarrow> page \<Rightarrow> string \<Rightarrow> world \<Rightarrow> bool \<times> world" where
  "handle_captcha cfg pg keyword w =
     captcha_loop cfg pg keyword 0 (captcha_clock pg) False
       (logging WARNING ''!!! CAPTCHA DETECTED !!! Pausing script and waiting for manual intervention.'' w)"

text \<open>
  \<open>find_and_type_in_search_box\<close>: \<open>True\<close> after typing and submitting, \<open>False\<close> (logged)
  when the wait for the search box times out; any other exception leaves the function.
\<close>

definition find_and_type_in_search_box :: "page \<Rightarrow> string \<Rightarrow> world \<Rightarrow> (py_exn + bool) \<times> world" where
  "find_and_type_in_search_box pg text' w =
     (case box_result pg of
        None \<Rightarrow> (Inr True, browser PressReturn (browser (TypeText text') (browser FindSearchBox w)))
      | Some e \<Rightarrow>
          if exn_cls e = TimeoutException
          then (Inr False,
                logging ERROR ''Could not find the search box. Cannot perform search.''
                  (browser FindSearchBox w))
          else (Inl e, browser FindSearchBox w))"

text \<open>
  \<open>scrape_result_count\<close> returns a Python value: a string, or \<open>None\<close> when the function
  ends without a \<open>return\<close>. The \<open>try\<close> body clicks "Tools", waits for the result-stats
  element and searches its text; \<open>scrape_except\<close> is the two \<open>except\<close> clauses.
\<close>

definition scrape_except :: "page \<Rightarrow> py_exn \<Rightarrow> world \<Rightarrow> string option \<times> world" where
  "scrape_except pg e w =
     (if exn_cls e = TimeoutException \<or> exn_cls e = ElementClickInterceptedException then
        (if contains NO_RESULTS_TEXT (fallback_source pg)
         then (Some ''0'', logging WARNING ''Page indicates 'No results found'.'' (browser PageSource w))
         else (Some ''Scrape Failed'',
               logging ERROR
                 ''Failed to click 'Tools' or find result stats. Possible CAPTCHA or layout change.''
                 (browser PageSource w)))
      else (Some ''Scrape Failed'',
            logging ERROR (''An unexpected error occurred during scraping: '' @ exn_msg e) w))"

definition scrape_result_count :: "page \<Rightarrow> world \<Rightarrow> string option \<times> world" where
  "scrape_result_count pg w =
     (case tools_result pg of
        Some e \<Rightarrow> scrape_except pg e (browser ClickTools w)
      | None \<Rightarrow>
          (case stats_result pg of
             Inl e \<Rightarrow> scrape_except pg e (browser ReadStats (browser ClickTools w))
           | Inr stats_text \<Rightarrow>
               (case re_search_count stats_text of
                  Some group1 \<Rightarrow>
                    if group1 \<noteq> [] then (Some group1, browser ReadStats (browser ClickTools w))
                    else (None, browser ReadStats (browser ClickTools w))
                | None \<Rightarrow> (None, browser ReadStats (browser ClickTools w)))))"

text \<open>\<open>str(result_count)\<close>.\<close>

definition py_str :: "string option \<Rightarrow> string" where
  "py_str v = (case v of None \<Rightarrow> ''None'' | Some s \<Rightarrow> s)"

text \<open>
  \<open>datetime.now().strftime('%d-%b-%Y')\<close>, for the date the clock gives (month names of
  the C locale).
\<close>

record date =
  date_day :: nat
  date_month :: nat
  date_year :: nat

definition month_abbr :: "nat \<Rightarrow> string" where
  "month_abbr m =
     (if 1 \<le> m \<and> m \<le> 12
      then [''Jan'', ''Feb'', ''Mar'', ''Apr'', ''May'', ''Jun'',
            ''Jul'', ''Aug'', ''Sep'', ''Oct'', ''Nov'', ''Dec''] ! (m - 1)
      else [])"

definition strftime_d_b_Y :: "date \<Rightarrow> string" where
  "strftime_d_b_Y d =
     two_digits (date_day d) @ ''-'' @ month_abbr (date_month d) @ ''-'' @ show_nat (date_year d)"

definition no_header_exn :: py_exn where
  "no_header_exn =
     \<lparr>exn_cls = OtherException,
      exn_msg = ''Could not find any date-like headers in row 2 to determine where to insert the new column.'',
      exn_trace = ''prepare_sheet_and_get_target_column''\<rparr>"

definition prepare_sheet_and_get_target_column :: "date \<Rightarrow> world \<Rightarrow> (py_exn + nat) \<times> world" where
  "prepare_sheet_and_get_target_column now w =
     (let date_row_values = row_values (sheet w) DATE_HEADER_ROW;
          last_tracking = last_tracking_col_index date_row_values
      in if last_tracking = 0
         then (Inl no_header_exn,
               logging ERROR (''Failed to prepare the sheet: '' @ exn_msg no_header_exn) w)
         else (let new_col_index = last_tracking + 1
               in (Inr new_col_index,
                   ws_update_cell DATE_HEADER_ROW new_col_index (strftime_d_b_Y now)
                     (ws_insert_cols new_col_index w))))"

section \<open>The main loop\<close>

text \<open>\<open>queries = [item[0] for item in queries_data if item]\<close>\<close>

definition queries_of :: "string list list \<Rightarrow> string list" where
  "queries_of queries_data = map hd (filter (\<lambda>item. item \<noteq> []) queries_data)"

text \<open>
  The end of one pass of the loop body: \<open>worksheet.update_cell(current_row, target_col,
  str(result_count))\<close>, which may raise.
\<close>

definition write_row :: "page \<Rightarrow> nat \<Rightarrow> nat \<Rightarrow> string option \<Rightarrow> world \<Rightarrow> (py_exn + unit) \<times> world" where
  "write_row pg current_row target_col result_count w =
     (case write_result pg of
        Some e \<Rightarrow> (Inl e, w)
      | None \<Rightarrow> (Inr (), ws_update_cell current_row target_col (py_str result_count) w))"

text \<open>
  One pass of the loop body for the query of \<open>current_row\<close>. \<open>Inl e\<close> is an exception
  leaving the loop; \<open>Inr ()\<close> is the pass ending, by its last statement or by \<open>continue\<close>.
\<close>

definition process_query ::
  "config \<Rightarrow> page \<Rightarrow> nat \<Rightarrow> nat \<Rightarrow> string \<Rightarrow> world \<Rightarrow> (py_exn + unit) \<times> world" where
  "process_query cfg pg target_col current_row query w =
     (if strip query = [] then
        write_row pg current_row target_col (Some [])
          (logging WARNING (''Skipping empty query at row '' @ show_nat current_row @ ''.'') w)
      else
        (case nav_result pg of
           Some e \<Rightarrow> (Inl e, browser (Get ''https://www.google.com'') w)
         | None \<Rightarrow>
             (case find_and_type_in_search_box pg query (browser (Get ''https://www.google.com'') w) of
                (Inl e, w1) \<Rightarrow> (Inl e, w1)
              | (Inr False, w1) \<Rightarrow> (Inr (), w1)
              | (Inr True, w1) \<Rightarrow>
                  if blocked (loaded_source pg) then
                    (case handle_captcha cfg pg query (browser PageSource w1) of
                       (False, w2) \<Rightarrow>
                         write_row pg current_row target_col (Some ''CAPTCHA FAILED'') w2
                     | (True, w2) \<Rightarrow>
                         (case scrape_result_count pg w2 of
                            (result_count, w3) \<Rightarrow>
                              write_row pg current_row target_col result_count w3))
                  else
                    (case scrape_result_count pg (browser PageSource w1) of
                       (result_count, w2) \<Rightarrow>
                         write_row pg current_row target_col result_count w2))))"

text \<open>\<open>for i, query in enumerate(queries)\<close>, from index \<open>i\<close> on; \<open>pages i\<close> is what the
  browser does during pass \<open>i\<close>.\<close>

fun process_queries ::
  "config \<Rightarrow> (nat \<Rightarrow> page) \<Rightarrow> nat \<Rightarrow> nat \<Rightarrow> string list \<Rightarrow> world \<Rightarrow> (py_exn + unit) \<times> world" where
  "process_queries cfg pages target_col i [] w = (Inr (), w)"
| "process_queries cfg pages target_col i (query # rest) w =
     (case process_query cfg (pages i) target_col (PDP_START_ROW + i) query w of
        (Inl e, w1) \<Rightarrow> (Inl e, w1)
      | (Inr u, w1) \<Rightarrow> process_queries cfg pages target_col (Suc i) rest w1)"

section \<open>The top level\<close>

text \<open>
  What the outside does during one run: the exception raised while connecting to the
  spreadsheet, while fetching the query range or while starting the browser (if any), the
  date of the clock, and the browser's behaviour during each pass of the loop.
\<close>

record run_env =
  connect_result :: "py_exn option"
  now :: date
  fetch_result :: "py_exn option"
  webdriver_result :: "py_exn option"
  pages :: "nat \<Rightarrow> page"

text \<open>The body of the \<open>try\<close> statement of \<open>main\<close>.\<close>

definition main_try :: "config \<Rightarrow> run_env \<Rightarrow> world \<Rightarrow> (py_exn + unit) \<times> world" where
  "main_try cfg env w =
     (case connect_result env of
        Some e \<Rightarrow> (Inl e, w)
      | None \<Rightarrow>
          (case prepare_sheet_and_get_target_column (now env) w of
             (Inl e, w1) \<Rightarrow> (Inl e, w1)
           | (Inr target_col, w1) \<Rightarrow>
               (case fetch_result env of
                  Some e \<Rightarrow> (Inl e, w1)
                | None \<Rightarrow>
                    (let queries_data = get_values (sheet w1) PDP_QUERIES_COLUMN PDP_START_ROW PDP_END_ROW;
                         queries = queries_of queries_data
                     in case webdriver_result env of
                          Some e \<Rightarrow> (Inl e, w1)
                        | None \<Rightarrow>
                            process_queries cfg (pages env) target_col 0 queries
                              (w1\<lparr>driver := DriverRunning\<rparr>)))))"

definition crash_subject :: string where
  "crash_subject = ''PDP Checker Alert: SCRIPT CRASHED''"

definition crash_log :: "py_exn \<Rightarrow> string" where
  "crash_log e = ''A critical, unhandled error occurred: '' @ exn_msg e @ newline @ exn_trace e"

definition crash_body :: "py_exn \<Rightarrow> string" where
  "crash_body e =
     ''The PDP Checker script has crashed.'' @ newline @ newline @ ''Error:'' @ newline @ exn_msg e
     @ newline @ newline @ ''Traceback:'' @ newline @ exn_trace e"

text \<open>
  The clause \<open>except Exception as e\<close> of \<open>main\<close> takes an exception whose class derives from
  \<open>Exception\<close>, which every class of the model does; its body logs and reports the crash.
  The \<open>finally\<close> clause quits the browser when the variable \<open>driver\<close> holds one.
\<close>

fun is_Exception :: "exn_class \<Rightarrow> bool" where
  "is_Exception TimeoutException = True"
| "is_Exception ElementClickInterceptedException = True"
| "is_Exception OtherException = True"

definition main_except :: "config \<Rightarrow> py_exn \<Rightarrow> world \<Rightarrow> world" where
  "main_except cfg e w =
     send_error_email cfg crash_subject (crash_body e) (logging CRITICAL (crash_log e) w)"

definition main_finally :: "world \<Rightarrow> world" where
  "main_finally w =
     (if driver w = DriverRunning then (browser Quit w)\<lparr>driver := DriverQuit\<rparr> else w)"

text \<open>
  \<open>main\<close> returns the exception that leaves it (if any) and the final state: an exception
  of the \<open>try\<close> body that the handler takes is gone after the handler, one that it does not
  take goes on after the \<open>finally\<close> clause. Neither the handler nor the \<open>finally\<close> clause
  raises in this model. \<open>run_script\<close> is the script run as a program: the exit status of the
  process is 0 when \<open>main\<close> returns and 1 when an exception leaves it.
\<close>

definition main :: "config \<Rightarrow> run_env \<Rightarrow> world \<Rightarrow> py_exn option \<times> world" where
  "main cfg env w0 =
     (case main_try cfg env (w0\<lparr>driver := DriverNone\<rparr>) of
        (Inl e, w1) \<Rightarrow>
          if is_Exception (exn_cls e) then (None, main_finally (main_except cfg e w1))
          else (Some e, main_finally w1)
      | (Inr u, w1) \<Rightarrow> (None, main_finally w1))"

definition run_script :: "config \<Rightarrow> run_env \<Rightarrow> world \<Rightarrow> nat \<times> world" where
  "run_script cfg env w0 =
     (case main cfg env w0 of (None, w) \<Rightarrow> (0, w) | (Some e, w) \<Rightarrow> (1, w))"

section \<open>Notions used in the statements\<close>

text \<open>
  The reading of "a token of digits and commas immediately preceding the word result":
  \<open>tok\<close> is a non-empty string of digits and commas that stands at position \<open>n\<close> of the
  text and is followed there by a space and \<open>result\<close> in any letter case.
\<close>

definition token_at :: "string \<Rightarrow> nat \<Rightarrow> string \<Rightarrow> bool" where
  "token_at stats n tok =
     (tok \<noteq> [] \<and> list_all is_count_char tok \<and> take (length tok) (drop n stats) = tok
      \<and> starts_with_ci '' result'' (drop (n + length tok) stats))"

text \<open>The number of log records of level CRITICAL.\<close>

definition criticals :: "world \<Rightarrow> nat" where
  "criticals w = length (filter (\<lambda>entry. fst entry = CRITICAL) (logs w))"

text \<open>
  The pass for \<open>query\<close> ends at \<open>continue\<close>: the query is not blank and the wait for the
  search box times out.
\<close>

definition search_box_missing :: "page \<Rightarrow> string \<Rightarrow> bool" where
  "search_box_missing pg query =
     (strip query \<noteq> []
      \<and> (case box_result pg of Some e \<Rightarrow> exn_cls e = TimeoutException | None \<Rightarrow> False))"

text \<open>
  The loop condition of \<open>handle_captcha\<close> holds at its evaluations 0 to \<open>n\<close>: each of these
  readings of the clock is below the timeout. Poll \<open>n\<close> is made when this holds and the
  polls before it all showed a marker.
\<close>

definition polls_in_time :: "config \<Rightarrow> nat list \<Rightarrow> nat \<Rightarrow> bool" where
  "polls_in_time cfg readings n =
     (n < length readings
      \<and> list_all (\<lambda>elapsed. elapsed < CAPTCHA_WAIT_TIMEOUT cfg) (take (Suc n) readings))"

text \<open>
  The value of the variable \<open>result_count\<close> of \<open>main\<close> when a pass for \<open>query\<close> reaches the
  write: the empty string for a blank query, the sentinel when the CAPTCHA wait fails, and
  otherwise what \<open>scrape_result_count\<close> returns. The handler and the scrape are run here
  from the state \<open>w\<close>; their return values do not depend on it.
\<close>

definition result_count :: "config \<Rightarrow> page \<Rightarrow> string \<Rightarrow> world \<Rightarrow> string option" where
  "result_count cfg pg query w =
     (if strip query = [] then Some []
      else if blocked (loaded_source pg) then
        (if fst (handle_captcha cfg pg query w) then fst (scrape_result_count pg w)
         else Some ''CAPTCHA FAILED'')
      else fst (scrape_result_count pg w))"

section \<open>Concrete inputs\<close>

definition example_config :: config where
  "example_config =
     \<lparr>ENABLE_EMAIL_NOTIFICATIONS = True, CAPTCHA_WAIT_TIMEOUT = 3, CAPTCHA_CHECK_INTERVAL = 1\<rparr>"

definition example_page :: page where
  "example_page =
     \<lparr>nav_result = None, box_result = None, loaded_source = ''<html>results</html>'',
      captcha_source = (\<lambda>k. ''unusual traffic''), captcha_clock = [0, 1, 2, 3],
      tools_result = None,
      stats_result = Inr ''About 71,60,000 results (0.42 seconds)'',
      fallback_source = [], write_result = None\<rparr>"

definition example_sheet :: worksheet where
  "example_sheet =
     \<lparr>cells = (\<lambda>(r, c). if r = 2 \<and> c = 5 then ''01-Jan-24''
                         else if r = 2 \<and> c = 6 then ''15-Jan-24''
                         else if r = 4 \<and> c = 4 then ''first query''
                         else if r = 6 \<and> c = 4 then ''third query'' else []),
      col_count = 8\<rparr>"

definition example_world :: world where
  "example_world =
     \<lparr>sheet = example_sheet, sheet_calls = [], emails = [], logs = [], browser_ops = [],
      driver = DriverNone\<rparr>"

definition timeout_exn :: py_exn where
  "timeout_exn = \<lparr>exn_cls = TimeoutException, exn_msg = ''Message: '', exn_trace = ''WebDriverWait.until''\<rparr>"

definition example_page_no_box :: page where
  "example_page_no_box = example_page\<lparr>box_result := Some timeout_exn\<rparr>"

definition example_page_no_match :: page where
  "example_page_no_match = example_page\<lparr>stats_result := Inr ''About 5 pages''\<rparr>"

definition example_sheet_no_header :: worksheet where
  "example_sheet_no_header =
     \<lparr>cells = (\<lambda>(r, c). if r = 2 \<and> c = 5 then ''Notes''
                         else if r = 4 \<and> c = 4 then ''first query'' else []),
      col_count = 8\<rparr>"

definition example_world_no_header :: world where
  "example_world_no_header = example_world\<lparr>sheet := example_sheet_no_header\<rparr>"

definition example_env :: run_env where
  "example_env =
     \<lparr>connect_result = None, now = \<lparr>date_day = 25, date_month = 5, date_year = 2024\<rparr>,
      fetch_result = None, webdriver_result = None, pages = (\<lambda>i. example_page)\<rparr>"

definition example_page_solved :: page where
  "example_page_solved = example_page\<lparr>loaded_source := ''unusual traffic'', captcha_source := (\<lambda>k. ''<html>results</html>'')\<rparr>"

definition example_page_blocked :: page where
  "example_page_blocked = example_page\<lparr>loaded_source := ''unusual traffic''\<rparr>"

definition example_config_no_email :: config where
  "example_config_no_email = example_config\<lparr>ENABLE_EMAIL_NOTIFICATIONS := False\<rparr>"

definition connect_exn :: py_exn where
  "connect_exn =
     \<lparr>exn_cls = OtherException, exn_msg = ''APIError: 503'',
      exn_trace = ''Traceback (most recent call last): connect_to_google_sheets''\<rparr>"

definition example_env_no_connect :: run_env where
  "example_env_no_connect = example_env\<lparr>connect_result := Some connect_exn\<rparr>"

definition example_pages :: "nat \<Rightarrow> page" where
  "example_pages i = (if i = 0 then example_page_no_box else example_page)"

definition example_pages_blocked :: "nat \<Rightarrow> page" where
  "example_pages_blocked i = (if i = 0 then example_page_blocked else example_page)"

definition example_pages_mixed :: "nat \<Rightarrow> page" where
  "example_pages_mixed i = (if i = 2 then example_page_blocked else example_page)"

text \<open>
  A CAPTCHA episode in which the notification takes time: the timeout is 5 seconds, the
  pause 2 seconds, the clock reads 0, 4 and 6 at the three evaluations of the loop condition,
  and the page is clear from the third poll on, which is never made.
\<close>

definition example_config_slow :: config where
  "example_config_slow =
     \<lparr>ENABLE_EMAIL_NOTIFICATIONS = True, CAPTCHA_WAIT_TIMEOUT = 5, CAPTCHA_CHECK_INTERVAL = 2\<rparr>"

definition example_page_slow :: page where
  "example_page_slow =
     example_page\<lparr>loaded_source := ''unusual traffic'',
                  captcha_source := (\<lambda>k. if k < 2 then ''unusual traffic'' else ''<html>results</html>''),
                  captcha_clock := [0, 4, 6]\<rparr>"

section \<open>Effects on the parts of the state\<close>

lemma logging_simps:
  "sheet (logging lvl m w) = sheet w"
  "sheet_calls (logging lvl m w) = sheet_calls w"
  "emails (logging lvl m w) = emails w"
  "logs (logging lvl m w) = logs w @ [(lvl, m)]"
  "browser_ops (logging lvl m w) = browser_ops w"
  "driver (logging lvl m w) = driver w"
  by (simp_all add: logging_def)

lemma browser_simps:
  "sheet (browser b w) = sheet w"
  "sheet_calls (browser b w) = sheet_calls w"
  "emails (browser b w) = emails w"
  "logs (browser b w) = logs w"
  "browser_ops (browser b w) = browser_ops w @ [b]"
  "driver (browser b w) = driver w"
  by (simp_all add: browser_def)

lemma send_error_email_simps:
  "sheet (send_error_email cfg s t w) = sheet w"
  "sheet_calls (send_error_email cfg s t w) = sheet_calls w"
  "emails (send_error_email cfg s t w) =
     (if ENABLE_EMAIL_NOTIFICATIONS cfg then emails w @ [(s, t)] else emails w)"
  "logs (send_error_email cfg s t w) = logs w"
  "browser_ops (send_error_email cfg s t w) = browser_ops w"
  "driver (send_error_email cfg s t w) = driver w"
  by (simp_all add: send_error_email_def)

lemma ws_update_cell_simps:
  "sheet (ws_update_cell r c v w) = update_cell r c v (sheet w)"
  "sheet_calls (ws_update_cell r c v w) = sheet_calls w @ [UpdateCell r c v]"
  "emails (ws_update_cell r c v w) = emails w"
  "logs (ws_update_cell r c v w) = logs w"
  "browser_ops (ws_update_cell r c v w) = browser_ops w"
  "driver (ws_update_cell r c v w) = driver w"
  by (simp_all add: ws_update_cell_def)

lemma ws_insert_cols_simps:
  "sheet (ws_insert_cols c w) = insert_cols c (sheet w)"
  "sheet_calls (ws_insert_cols c w) = sheet_calls w @ [InsertCols c]"
  "emails (ws_insert_cols c w) = emails w"
  "logs (ws_insert_cols c w) = logs w"
  "browser_ops (ws_insert_cols c w) = browser_ops w"
  "driver (ws_insert_cols c w) = driver w"
  by (simp_all add: ws_insert_cols_def)

lemmas effect_simps =
  logging_simps browser_simps send_error_email_simps ws_update_cell_simps ws_insert_cols_simps

lemma update_cell_cells:
  "cells (update_cell r c v ws) cell = (if cell = (r, c) then v else cells ws cell)"
  by (simp add: update_cell_def)

lemma update_cell_col_count: "col_count (update_cell r c v ws) = col_count ws"
  by (simp add: update_cell_def)

section \<open>Blank queries\<close>

lemma list_all_dropWhile: "list_all P (dropWhile P xs) = list_all P xs"
  by (induction xs) auto

lemma strip_eq_Nil_iff: "strip query = [] \<longleftrightarrow> list_all is_space query"
proof -
  have "strip query = [] \<longleftrightarrow> list_all is_space (dropWhile is_space query)"
    by (simp add: strip_def dropWhile_eq_Nil_conv list_all_iff)
  then show ?thesis
    by (simp add: list_all_dropWhile)
qed

lemma strip_blank: "list_all is_space query \<Longrightarrow> strip query = []"
  by (simp add: strip_eq_Nil_iff)

text \<open>
  Claim C8. A query that consists only of whitespace (the empty query included) gives the
  result \<open>""\<close>: the pass invokes no operation on the browser, and the empty string is
  written to the cell of the row in the target column (when the write itself does not raise).
\<close>

theorem blank_query_written_without_browser:
  assumes "list_all is_space query" and "write_result pg = None"
  shows "\<exists>w'. process_query cfg pg target_col current_row query w = (Inr (), w')
           \<and> browser_ops w' = browser_ops w
           \<and> sheet_calls w' = sheet_calls w @ [UpdateCell current_row target_col []]
           \<and> cells (sheet w') (current_row, target_col) = []"
  using assms
  by (simp add: process_query_def strip_blank write_row_def py_str_def effect_simps update_cell_cells)

theorem blank_query_written_without_browser_witness:
  "list_all is_space ''  '' \<and> write_result example_page = None
   \<and> (\<exists>w'. process_query example_config example_page 7 5 ''  '' example_world = (Inr (), w')
           \<and> browser_ops w' = browser_ops example_world
           \<and> sheet_calls w' = sheet_calls example_world @ [UpdateCell 5 7 []]
           \<and> cells (sheet w') (5, 7) = [])"
proof -
  have a: "list_all is_space ''  ''" by (simp add: is_space_def)
  have b: "write_result example_page = None" by (simp add: example_page_def)
  show ?thesis
    using a b blank_query_written_without_browser [OF a b, of example_config 7 5 example_world]
    by simp
qed

section \<open>The paths of one pass of the loop\<close>

lemma process_query_cases [consumes 1, case_names blank nav box_error skip captcha_failed captcha_solved scrape]:
  assumes run: "process_query cfg pg target_col current_row query w = (res, w')"
    and blank: "strip query = [] \<Longrightarrow>
        write_row pg current_row target_col (Some [])
          (logging WARNING (''Skipping empty query at row '' @ show_nat current_row @ ''.'') w) = (res, w')
        \<Longrightarrow> thesis"
    and nav: "\<And>e. strip query \<noteq> [] \<Longrightarrow> nav_result pg = Some e \<Longrightarrow> res = Inl e \<Longrightarrow>
        w' = browser (Get ''https://www.google.com'') w \<Longrightarrow> thesis"
    and box_error: "\<And>e. strip query \<noteq> [] \<Longrightarrow> nav_result pg = None \<Longrightarrow>
        find_and_type_in_search_box pg query (browser (Get ''https://www.google.com'') w) = (Inl e, w')
        \<Longrightarrow> res = Inl e \<Longrightarrow> thesis"
    and skip: "strip query \<noteq> [] \<Longrightarrow> nav_result pg = None \<Longrightarrow>
        find_and_type_in_search_box pg query (browser (Get ''https://www.google.com'') w) = (Inr False, w')
        \<Longrightarrow> res = Inr () \<Longrightarrow> thesis"
    and captcha_failed: "\<And>w1 w2. strip query \<noteq> [] \<Longrightarrow> nav_result pg = None \<Longrightarrow>
        find_and_type_in_search_box pg query (browser (Get ''https://www.google.com'') w) = (Inr True, w1)
        \<Longrightarrow> blocked (loaded_source pg)
        \<Longrightarrow> handle_captcha cfg pg query (browser PageSource w1) = (False, w2)
        \<Longrightarrow> write_row pg current_row target_col (Some ''CAPTCHA FAILED'') w2 = (res, w')
        \<Longrightarrow> thesis"
    and captcha_solved: "\<And>w1 w2 rc w3. strip query \<noteq> [] \<Longrightarrow> nav_result pg = None \<Longrightarrow>
        find_and_type_in_search_box pg query (browser (Get ''https://www.google.com'') w) = (Inr True, w1)
        \<Longrightarrow> blocked (loaded_source pg)
        \<Longrightarrow> handle_captcha cfg pg query (browser PageSource w1) = (True, w2)
        \<Longrightarrow> scrape_result_count pg w2 = (rc, w3)
        \<Longrightarrow> write_row pg current_row target_col rc w3 = (res, w')
        \<Longrightarrow> thesis"
    and scrape: "\<And>w1 rc w2. strip query \<noteq> [] \<Longrightarrow> nav_result pg = None \<Longrightarrow>
        find_and_type_in_search_box pg query (browser (Get ''https://www.google.com'') w) = (Inr True, w1)
        \<Longrightarrow> \<not> blocked (loaded_source pg)
        \<Longrightarrow> scrape_result_count pg (browser PageSource w1) = (rc, w2)
        \<Longrightarrow> write_row pg current_row target_col rc w2 = (res, w')
        \<Longrightarrow> thesis"
  shows thesis
proof (cases "strip query = []")
  case True
  with run blank show ?thesis by (simp add: process_query_def)
next
  case nonblank: False
  show ?thesis
  proof (cases "nav_result pg")
    case (Some e)
    with run nonblank nav show ?thesis by (simp add: process_query_def)
  next
    case None
    obtain r1 w1 where ft:
      "find_and_type_in_search_box pg query (browser (Get ''https://www.google.com'') w) = (r1, w1)"
      by (cases "find_and_type_in_search_box pg query (browser (Get ''https://www.google.com'') w)")
    show ?thesis
    proof (cases r1)
      case (Inl e)
      with run nonblank None ft box_error show ?thesis by (simp add: process_query_def)
    next
      case (Inr found)
      show ?thesis
      proof (cases found)
        case False
        with run nonblank None ft Inr skip show ?thesis by (simp add: process_query_def)
      next
        case True
        have ft': "find_and_type_in_search_box pg query (browser (Get ''https://www.google.com'') w)
                     = (Inr True, w1)"
          using ft Inr True by simp
        show ?thesis
        proof (cases "blocked (loaded_source pg)")
          case clear: False
          obtain rc w2 where sc: "scrape_result_count pg (browser PageSource w1) = (rc, w2)"
            by (cases "scrape_result_count pg (browser PageSource w1)")
          from run nonblank None ft' clear sc
          have "write_row pg current_row target_col rc w2 = (res, w')"
            by (simp add: process_query_def)
          with nonblank None ft' clear sc show ?thesis by (rule scrape)
        next
          case blk: True
          obtain b w2 where hc: "handle_captcha cfg pg query (browser PageSource w1) = (b, w2)"
            by (cases "handle_captcha cfg pg query (browser PageSource w1)")
          show ?thesis
          proof (cases b)
            case False
            with hc have hc': "handle_captcha cfg pg query (browser PageSource w1) = (False, w2)"
              by simp
            with run nonblank None ft' blk
            have "write_row pg current_row target_col (Some ''CAPTCHA FAILED'') w2 = (res, w')"
              by (simp add: process_query_def)
            with nonblank None ft' blk hc' show ?thesis by (rule captcha_failed)
          next
            case solved: True
            obtain rc w3 where sc: "scrape_result_count pg w2 = (rc, w3)"
              by (cases "scrape_result_count pg w2")
            from hc solved
            have hc': "handle_captcha cfg pg query (browser PageSource w1) = (True, w2)"
              by simp
            from run nonblank None ft' blk hc' sc
            have "write_row pg current_row target_col rc w3 = (res, w')"
              by (simp add: process_query_def)
            with nonblank None ft' blk hc' sc show ?thesis by (rule captcha_solved)
          qed
        qed
      qed
    qed
  qed
qed

section \<open>What the helpers leave alone\<close>

lemma alert_once_simps:
  "sheet (alert_once cfg keyword a w) = sheet w"
  "sheet_calls (alert_once cfg keyword a w) = sheet_calls w"
  "emails (alert_once cfg keyword a w) =
     (if \<not> a \<and> ENABLE_EMAIL_NOTIFICATIONS cfg
      then emails w @ [(captcha_subject, captcha_body keyword)] else emails w)"
  "logs (alert_once cfg keyword a w) = logs w"
  "browser_ops (alert_once cfg keyword a w) = browser_ops w"
  "driver (alert_once cfg keyword a w) = driver w"
  by (simp_all add: alert_once_def send_error_email_simps)

lemma captcha_loop_sheet:
  "sheet (snd (captcha_loop cfg pg keyword k readings alert_sent w)) = sheet w
   \<and> sheet_calls (snd (captcha_loop cfg pg keyword k readings alert_sent w)) = sheet_calls w"
  by (induction cfg pg keyword k readings alert_sent w rule: captcha_loop.induct)
     (simp_all add: effect_simps alert_once_simps)

lemma handle_captcha_sheet:
  assumes "handle_captcha cfg pg keyword w = (b, w')"
  shows "sheet w' = sheet w \<and> sheet_calls w' = sheet_calls w"
proof -
  have "w' = snd (handle_captcha cfg pg keyword w)" using assms by simp
  then show ?thesis
    by (simp add: handle_captcha_def captcha_loop_sheet effect_simps)
qed

lemma find_and_type_sheet:
  "find_and_type_in_search_box pg q w = (r, w') \<Longrightarrow>
     sheet w' = sheet w \<and> sheet_calls w' = sheet_calls w"
  by (auto simp: find_and_type_in_search_box_def effect_simps split: option.splits if_splits)

lemma scrape_except_sheet:
  "scrape_except pg e w = (r, w') \<Longrightarrow> sheet w' = sheet w \<and> sheet_calls w' = sheet_calls w"
  by (auto simp: scrape_except_def effect_simps split: if_splits)

lemma scrape_result_count_sheet:
  "scrape_result_count pg w = (r, w') \<Longrightarrow> sheet w' = sheet w \<and> sheet_calls w' = sheet_calls w"
  by (auto simp: scrape_result_count_def effect_simps
        split: option.splits sum.splits if_splits dest!: scrape_except_sheet)

lemma write_row_sheet:
  "write_row pg current_row target_col v w = (res, w') \<Longrightarrow>
     (res \<noteq> Inr () \<and> w' = w)
     \<or> (res = Inr () \<and> sheet w' = update_cell current_row target_col (py_str v) (sheet w)
        \<and> sheet_calls w' = sheet_calls w @ [UpdateCell current_row target_col (py_str v)])"
  by (auto simp: write_row_def effect_simps split: option.splits)

lemma process_query_sheet:
  assumes "process_query cfg pg target_col current_row query w = (res, w')"
  shows "(sheet w' = sheet w \<and> sheet_calls w' = sheet_calls w)
         \<or> (\<exists>v. res = Inr () \<and> sheet w' = update_cell current_row target_col v (sheet w)
                \<and> sheet_calls w' = sheet_calls w @ [UpdateCell current_row target_col v])"
  using assms
proof (cases rule: process_query_cases)
  case blank
  from write_row_sheet [OF blank(2)] show ?thesis by (auto simp: effect_simps)
next
  case (nav e)
  then show ?thesis by (simp add: effect_simps)
next
  case (box_error e)
  from find_and_type_sheet [OF box_error(3)] show ?thesis by (simp add: effect_simps)
next
  case skip
  from find_and_type_sheet [OF skip(3)] show ?thesis by (simp add: effect_simps)
next
  case (captcha_failed w1 w2)
  from find_and_type_sheet [OF captcha_failed(3)] handle_captcha_sheet [OF captcha_failed(5)]
  have "sheet w2 = sheet w \<and> sheet_calls w2 = sheet_calls w" by (simp add: effect_simps)
  with write_row_sheet [OF captcha_failed(6)] show ?thesis by auto
next
  case (captcha_solved w1 w2 rc w3)
  from find_and_type_sheet [OF captcha_solved(3)] handle_captcha_sheet [OF captcha_solved(5)]
    scrape_result_count_sheet [OF captcha_solved(6)]
  have "sheet w3 = sheet w \<and> sheet_calls w3 = sheet_calls w" by (simp add: effect_simps)
  with write_row_sheet [OF captcha_solved(7)] show ?thesis by auto
next
  case (scrape w1 rc w2)
  from find_and_type_sheet [OF scrape(3)] scrape_result_count_sheet [OF scrape(5)]
  have "sheet w2 = sheet w \<and> sheet_calls w2 = sheet_calls w" by (simp add: effect_simps)
  with write_row_sheet [OF scrape(6)] show ?thesis by auto
qed

text \<open>
  Claim C9. The pass of the loop that writes the result of row \<open>current_row\<close> changes the
  cell (\<open>current_row\<close>, \<open>target_col\<close>) only: every other cell of the worksheet, in any
  row, keeps its content, and the grid keeps its width.
\<close>

theorem write_touches_one_cell:
  assumes "process_query cfg pg target_col current_row query w = (res, w')"
    and "cell \<noteq> (current_row, target_col)"
  shows "cells (sheet w') cell = cells (sheet w) cell \<and> col_count (sheet w') = col_count (sheet w)"
  using process_query_sheet [OF assms(1)] assms(2)
  by (auto simp: update_cell_cells update_cell_col_count)

section \<open>Evaluation on concrete inputs\<close>

lemmas run_defs =
  process_query_def find_and_type_in_search_box_def scrape_result_count_def scrape_except_def
  write_row_def blocked_def strip_def is_space_def match_here_def is_count_char_def is_digit_def
  to_lower_def py_str_def handle_captcha_def PDP_START_ROW_def NO_RESULTS_TEXT_def

lemmas example_defs =
  example_config_def example_page_def example_sheet_def example_world_def timeout_exn_def
  example_page_no_box_def

theorem write_touches_one_cell_witness:
  "\<exists>res w'. process_query example_config example_page 7 4 ''first query'' example_world = (res, w')
     \<and> (4, 4) \<noteq> (4 :: nat, 7 :: nat)
     \<and> cells (sheet w') (4, 4) = cells (sheet example_world) (4, 4)
     \<and> col_count (sheet w') = col_count (sheet example_world)
     \<and> cells (sheet w') (4, 7) = ''71,60,000''"
proof -
  obtain res w' where
    run: "process_query example_config example_page 7 4 ''first query'' example_world = (res, w')"
    by (cases "process_query example_config example_page 7 4 ''first query'' example_world")
  have "cells (sheet (snd (process_query example_config example_page 7 4 ''first query'' example_world)))
          (4, 7) = ''71,60,000''"
    by (simp add: run_defs example_defs effect_simps update_cell_cells)
  with run have cell: "cells (sheet w') (4, 7) = ''71,60,000''" by simp
  have ne: "(4, 4) \<noteq> (4 :: nat, 7 :: nat)" by simp
  from write_touches_one_cell [OF run ne] run ne cell show ?thesis by blast
qed

section \<open>The loop goes on after a pass\<close>

lemma process_queries_append:
  "process_queries cfg pgs target_col i (xs @ ys) w =
     (case process_queries cfg pgs target_col i xs w of
        (Inl e, w1) \<Rightarrow> (Inl e, w1)
      | (Inr u, w1) \<Rightarrow> process_queries cfg pgs target_col (i + length xs) ys w1)"
proof (induction xs arbitrary: i w)
  case Nil
  show ?case by simp
next
  case (Cons x xs)
  obtain r1 w1 where one: "process_query cfg (pgs i) target_col (PDP_START_ROW + i) x w = (r1, w1)"
    by (cases "process_query cfg (pgs i) target_col (PDP_START_ROW + i) x w")
  show ?case
  proof (cases r1)
    case (Inl e)
    with one show ?thesis by simp
  next
    case (Inr u)
    with one Cons.IH [of "Suc i" w1] show ?thesis
      by (simp split: prod.splits sum.splits)
  qed
qed

lemma loop_goes_on:
  assumes j: "j < length queries"
    and reach: "process_queries cfg pgs target_col 0 (take j queries) w = (Inr (), wj)"
    and pass: "process_query cfg (pgs j) target_col (PDP_START_ROW + j) (queries ! j) wj = (Inr (), wj')"
  shows "process_queries cfg pgs target_col 0 queries w
           = process_queries cfg pgs target_col (Suc j) (drop (Suc j) queries) wj'"
proof -
  have "queries = take j queries @ (queries ! j # drop (Suc j) queries)"
    using j by (simp add: id_take_nth_drop)
  then have "process_queries cfg pgs target_col 0 queries w
               = process_queries cfg pgs target_col 0
                   (take j queries @ (queries ! j # drop (Suc j) queries)) w"
    by simp
  also have "\<dots> = process_queries cfg pgs target_col j (queries ! j # drop (Suc j) queries) wj"
    using reach j by (simp add: process_queries_append)
  also have "\<dots> = process_queries cfg pgs target_col (Suc j) (drop (Suc j) queries) wj'"
    using pass by simp
  finally show ?thesis .
qed

lemma next_pass:
  assumes "Suc j < length queries"
  shows "process_queries cfg pgs target_col (Suc j) (drop (Suc j) queries) w1
           = (case process_query cfg (pgs (Suc j)) target_col (PDP_START_ROW + Suc j)
                     (queries ! Suc j) w1 of
                (Inl e, w2) \<Rightarrow> (Inl e, w2)
              | (Inr u, w2) \<Rightarrow>
                  process_queries cfg pgs target_col (Suc (Suc j)) (drop (Suc (Suc j)) queries) w2)"
proof -
  have "drop (Suc j) queries = queries ! Suc j # drop (Suc (Suc j)) queries"
    using assms by (simp add: Cons_nth_drop_Suc)
  then show ?thesis by simp
qed

lemma search_box_timeout_pass:
  assumes "strip query \<noteq> []" and "nav_result pg = None"
    and "box_result pg = Some e" and "exn_cls e = TimeoutException"
  shows "\<exists>w'. process_query cfg pg target_col current_row query w = (Inr (), w')
           \<and> sheet w' = sheet w \<and> sheet_calls w' = sheet_calls w
           \<and> logs w' = logs w @ [(ERROR, ''Could not find the search box. Cannot perform search.'')]"
  using assms
  by (simp add: process_query_def find_and_type_in_search_box_def effect_simps)

text \<open>
  Claim C7. Let the search box of query \<open>j\<close> of the list (a non-blank query) not be found
  within the bounded wait. From every state the pass for that query ends normally: the
  failure is logged at level ERROR and no call writes the worksheet. And whenever the loop
  over the list reaches that pass, the run of the whole loop is the run of the loop over the
  queries after \<open>j\<close>, from index \<open>j + 1\<close> and from the state the skipped pass left; if there is
  a next query, its pass is the next thing that runs, for row \<open>PDP_START_ROW + j + 1\<close>. The
  loop is a total function, so the run returns.
\<close>

theorem search_box_timeout_skips_row:
  assumes "j < length queries" and "strip (queries ! j) \<noteq> []" and "nav_result (pgs j) = None"
    and "box_result (pgs j) = Some e" and "exn_cls e = TimeoutException"
  shows "(\<forall>ws. \<exists>ws'. process_query cfg (pgs j) target_col (PDP_START_ROW + j) (queries ! j) ws
                       = (Inr (), ws')
              \<and> sheet ws' = sheet ws \<and> sheet_calls ws' = sheet_calls ws
              \<and> logs ws' = logs ws @ [(ERROR, ''Could not find the search box. Cannot perform search.'')])
         \<and> (\<forall>wj. process_queries cfg pgs target_col 0 (take j queries) w = (Inr (), wj)
              \<longrightarrow> (\<exists>wj'. process_query cfg (pgs j) target_col (PDP_START_ROW + j) (queries ! j) wj
                            = (Inr (), wj')
                     \<and> sheet_calls wj' = sheet_calls wj
                     \<and> process_queries cfg pgs target_col 0 queries w
                         = process_queries cfg pgs target_col (Suc j) (drop (Suc j) queries) wj'
                     \<and> (Suc j < length queries \<longrightarrow>
                          process_queries cfg pgs target_col 0 queries w
                            = (case process_query cfg (pgs (Suc j)) target_col (PDP_START_ROW + Suc j)
                                      (queries ! Suc j) wj' of
                                 (Inl e, w2) \<Rightarrow> (Inl e, w2)
                               | (Inr u, w2) \<Rightarrow>
                                   process_queries cfg pgs target_col (Suc (Suc j))
                                     (drop (Suc (Suc j)) queries) w2))))"
proof (intro conjI allI impI)
  fix ws
  show "\<exists>ws'. process_query cfg (pgs j) target_col (PDP_START_ROW + j) (queries ! j) ws
                       = (Inr (), ws')
              \<and> sheet ws' = sheet ws \<and> sheet_calls ws' = sheet_calls ws
              \<and> logs ws' = logs ws @ [(ERROR, ''Could not find the search box. Cannot perform search.'')]"
    using assms(2-5) by (rule search_box_timeout_pass)
next
  fix wj
  assume reach: "process_queries cfg pgs target_col 0 (take j queries) w = (Inr (), wj)"
  from search_box_timeout_pass [OF assms(2-5)] obtain wj' where
    pass: "process_query cfg (pgs j) target_col (PDP_START_ROW + j) (queries ! j) wj = (Inr (), wj')"
    and calls: "sheet_calls wj' = sheet_calls wj"
    by blast
  note on = loop_goes_on [OF assms(1) reach pass]
  have "Suc j < length queries \<longrightarrow>
          process_queries cfg pgs target_col 0 queries w
            = (case process_query cfg (pgs (Suc j)) target_col (PDP_START_ROW + Suc j)
                      (queries ! Suc j) wj' of
                 (Inl e, w2) \<Rightarrow> (Inl e, w2)
               | (Inr u, w2) \<Rightarrow>
                   process_queries cfg pgs target_col (Suc (Suc j))
                     (drop (Suc (Suc j)) queries) w2)"
    using on next_pass by simp
  with pass calls on
  show "\<exists>wj'. process_query cfg (pgs j) target_col (PDP_START_ROW + j) (queries ! j) wj
                            = (Inr (), wj')
                     \<and> sheet_calls wj' = sheet_calls wj
                     \<and> process_queries cfg pgs target_col 0 queries w
                         = process_queries cfg pgs target_col (Suc j) (drop (Suc j) queries) wj'
                     \<and> (Suc j < length queries \<longrightarrow>
                          process_queries cfg pgs target_col 0 queries w
                            = (case process_query cfg (pgs (Suc j)) target_col (PDP_START_ROW + Suc j)
                                      (queries ! Suc j) wj' of
                                 (Inl e, w2) \<Rightarrow> (Inl e, w2)
                               | (Inr u, w2) \<Rightarrow>
                                   process_queries cfg pgs target_col (Suc (Suc j))
                                     (drop (Suc (Suc j)) queries) w2))"
    by blast
qed

text \<open>
  The witness: of two queries, the search box of the first is not found. The run of the
  loop returns without an exception, writes nothing for row 4 and writes the result of the
  second query to row 5.
\<close>

theorem search_box_timeout_skips_row_witness:
  "0 < length [''first query'', ''second query'']
   \<and> strip ([''first query'', ''second query''] ! 0) \<noteq> []
   \<and> nav_result (example_pages 0) = None
   \<and> box_result (example_pages 0) = Some timeout_exn \<and> exn_cls timeout_exn = TimeoutException
   \<and> process_queries example_config example_pages 7 0 (take 0 [''first query'', ''second query''])
         example_world = (Inr (), example_world)
   \<and> (\<exists>w1 w'. process_query example_config (example_pages 0) 7 (PDP_START_ROW + 0) ''first query''
                   example_world = (Inr (), w1)
          \<and> sheet_calls w1 = sheet_calls example_world
          \<and> logs w1 = [(ERROR, ''Could not find the search box. Cannot perform search.'')]
          \<and> process_queries example_config example_pages 7 0 [''first query'', ''second query'']
                example_world
              = process_queries example_config example_pages 7 (Suc 0) [''second query''] w1
          \<and> process_queries example_config example_pages 7 0 [''first query'', ''second query'']
                example_world = (Inr (), w')
          \<and> sheet_calls w' = [UpdateCell 5 7 ''71,60,000''])"
proof -
  let ?qs = "[''first query'', ''second query'']"
  have a: "0 < length ?qs" by simp
  have b: "strip (?qs ! 0) \<noteq> []" by (simp add: strip_def is_space_def)
  have c: "nav_result (example_pages 0) = None" by (simp add: example_pages_def example_defs)
  have d: "box_result (example_pages 0) = Some timeout_exn"
    by (simp add: example_pages_def example_defs)
  have e: "exn_cls timeout_exn = TimeoutException" by (simp add: example_defs)
  have r: "process_queries example_config example_pages 7 0 (take 0 ?qs) example_world
             = (Inr (), example_world)" by simp
  note t = search_box_timeout_skips_row
    [where queries = ?qs and j = 0 and pgs = example_pages and e = timeout_exn
       and cfg = example_config and target_col = 7 and w = example_world, OF a b c d e]
  from t [THEN conjunct2, rule_format, OF r] obtain w1 where
    pass: "process_query example_config (example_pages 0) 7 (PDP_START_ROW + 0) (?qs ! 0)
             example_world = (Inr (), w1)"
    and calls: "sheet_calls w1 = sheet_calls example_world"
    and on: "process_queries example_config example_pages 7 0 ?qs example_world
               = process_queries example_config example_pages 7 (Suc 0) (drop (Suc 0) ?qs) w1"
    by blast
  from t [THEN conjunct1, rule_format, of example_world] pass
  have lg: "logs w1 = [(ERROR, ''Could not find the search box. Cannot perform search.'')]"
    by (auto simp: example_world_def)
  obtain w' where
    whole: "process_queries example_config example_pages 7 0 ?qs example_world = (Inr (), w')"
    and written: "sheet_calls w' = [UpdateCell 5 7 ''71,60,000'']"
    by (simp add: example_pages_def run_defs example_defs effect_simps)
  from a b c d e r pass calls lg on whole written show ?thesis
    by (auto simp: example_world_def)
qed

section \<open>The search of the result-stats text\<close>

lemma count_char_not_space: "is_count_char c \<Longrightarrow> to_lower c \<noteq> CHR '' ''"
  by (auto simp: is_count_char_def is_digit_def to_lower_def)

lemma literal_starts_outside_run:
  "starts_with_ci '' result'' s \<Longrightarrow> \<exists>c cs. s = c # cs \<and> \<not> is_count_char c"
proof (cases s)
  case Nil
  assume "starts_with_ci '' result'' s"
  with Nil show ?thesis by simp
next
  case (Cons c cs)
  assume "starts_with_ci '' result'' s"
  with Cons have "to_lower c = CHR '' ''" by (simp add: to_lower_def)
  with count_char_not_space [of c] Cons show ?thesis by auto
qed

lemma no_literal_inside_run:
  assumes "j < length (takeWhile is_count_char s)"
  shows "\<not> starts_with_ci '' result'' (drop j s)"
proof
  assume "starts_with_ci '' result'' (drop j s)"
  then obtain c cs where d: "drop j s = c # cs" and nc: "\<not> is_count_char c"
    using literal_starts_outside_run by blast
  have len: "j < length s"
    using assms length_takeWhile_le [of is_count_char s] by simp
  have "c = s ! j" using d len by (metis nth_via_drop)
  also have "\<dots> = takeWhile is_count_char s ! j"
    using assms by (simp add: takeWhile_nth)
  finally have "c \<in> set (takeWhile is_count_char s)"
    using assms by simp
  then have "is_count_char c" by (rule set_takeWhileD [THEN conjunct2])
  with nc show False by simp
qed

lemma match_group_None:
  "(\<And>j. 0 < j \<Longrightarrow> j \<le> k \<Longrightarrow> \<not> starts_with_ci '' result'' (drop j s)) \<Longrightarrow> match_group k s = None"
  by (induction k) auto

lemma match_group_top:
  assumes "\<And>j. 0 < j \<Longrightarrow> j < k \<Longrightarrow> \<not> starts_with_ci '' result'' (drop j s)"
  shows "match_group k s =
           (if 0 < k \<and> starts_with_ci '' result'' (drop k s) then Some (take k s) else None)"
proof (cases k)
  case 0
  then show ?thesis by simp
next
  case (Suc k')
  have "match_group k' s = None"
    using assms Suc by (intro match_group_None) auto
  with Suc show ?thesis by simp
qed

lemma match_here_eq:
  "match_here s =
     (if takeWhile is_count_char s \<noteq> []
         \<and> starts_with_ci '' result'' (drop (length (takeWhile is_count_char s)) s)
      then Some (takeWhile is_count_char s) else None)"
proof -
  have "take (length (takeWhile is_count_char s)) s = takeWhile is_count_char s"
    by (rule takeWhile_eq_take [symmetric])
  then show ?thesis
    unfolding match_here_def
    by (subst match_group_top) (auto simp: no_literal_inside_run)
qed

lemma token_at_run:
  assumes "token_at s 0 t"
  shows "t = takeWhile is_count_char s"
proof -
  from assms have t: "take (length t) s = t" and all: "list_all is_count_char t"
    and lit: "starts_with_ci '' result'' (drop (length t) s)"
    by (simp_all add: token_at_def)
  from lit obtain c cs where d: "drop (length t) s = c # cs" and nc: "\<not> is_count_char c"
    using literal_starts_outside_run by blast
  have "s = t @ c # cs"
    using t d by (metis append_take_drop_id)
  then have "takeWhile is_count_char s = t @ takeWhile is_count_char (c # cs)"
    using all by (simp add: list_all_iff)
  with nc show ?thesis by simp
qed

lemma token_at_0: "token_at s 0 t \<longleftrightarrow> match_here s = Some t"
proof
  assume a: "token_at s 0 t"
  then have "t = takeWhile is_count_char s" by (rule token_at_run)
  with a show "match_here s = Some t"
    by (simp add: match_here_eq token_at_def)
next
  assume "match_here s = Some t"
  then have t: "t = takeWhile is_count_char s" and ne: "t \<noteq> []"
    and lit: "starts_with_ci '' result'' (drop (length t) s)"
    by (auto simp: match_here_eq split: if_splits)
  have "list_all is_count_char t"
    unfolding t list_all_iff using set_takeWhileD by fastforce
  moreover have "take (length t) s = t"
    unfolding t by (rule takeWhile_eq_take [symmetric])
  ultimately show "token_at s 0 t"
    using ne lit by (simp add: token_at_def)
qed

lemma token_at_Cons: "token_at (c # cs) (Suc n) t = token_at cs n t"
  by (simp add: token_at_def)

lemma token_at_Nil: "\<not> token_at [] n t"
  by (auto simp: token_at_def)

lemma re_search_count_leftmost:
  "re_search_count stats = Some tok \<longleftrightarrow>
     (\<exists>n. token_at stats n tok \<and> (\<forall>m t. token_at stats m t \<longrightarrow> n \<le> m))"
proof (induction stats)
  case Nil
  show ?case by (simp add: token_at_Nil match_here_def)
next
  case (Cons c cs)
  show ?case
  proof (cases "match_here (c # cs)")
    case (Some g)
    then have g0: "token_at (c # cs) 0 g" by (simp add: token_at_0)
    show ?thesis
    proof
      assume "re_search_count (c # cs) = Some tok"
      with Some have "tok = g" by simp
      with g0 show "\<exists>n. token_at (c # cs) n tok \<and> (\<forall>m t. token_at (c # cs) m t \<longrightarrow> n \<le> m)"
        by (auto intro: exI [where x = 0])
    next
      assume "\<exists>n. token_at (c # cs) n tok \<and> (\<forall>m t. token_at (c # cs) m t \<longrightarrow> n \<le> m)"
      then obtain n where n: "token_at (c # cs) n tok" and least: "\<forall>m t. token_at (c # cs) m t \<longrightarrow> n \<le> m"
        by blast
      from least g0 have "n = 0" by auto
      with n have "match_here (c # cs) = Some tok" by (simp add: token_at_0)
      with Some show "re_search_count (c # cs) = Some tok" by simp
    qed
  next
    case None
    then have no0: "\<And>t. \<not> token_at (c # cs) 0 t" by (simp add: token_at_0)
    have shift: "\<And>m t. token_at (c # cs) m t \<longleftrightarrow> (\<exists>m'. m = Suc m' \<and> token_at cs m' t)"
    proof -
      fix m t show "token_at (c # cs) m t \<longleftrightarrow> (\<exists>m'. m = Suc m' \<and> token_at cs m' t)"
        using no0 by (cases m) (auto simp: token_at_Cons)
    qed
    have "re_search_count (c # cs) = Some tok \<longleftrightarrow> re_search_count cs = Some tok"
      using None by simp
    also have "\<dots> \<longleftrightarrow> (\<exists>n. token_at cs n tok \<and> (\<forall>m t. token_at cs m t \<longrightarrow> n \<le> m))"
      by (rule Cons.IH)
    also have "\<dots> \<longleftrightarrow> (\<exists>n. token_at (c # cs) n tok \<and> (\<forall>m t. token_at (c # cs) m t \<longrightarrow> n \<le> m))"
    proof
      assume "\<exists>n. token_at cs n tok \<and> (\<forall>m t. token_at cs m t \<longrightarrow> n \<le> m)"
      then obtain n where "token_at cs n tok" and "\<forall>m t. token_at cs m t \<longrightarrow> n \<le> m" by blast
      then have "token_at (c # cs) (Suc n) tok \<and> (\<forall>m t. token_at (c # cs) m t \<longrightarrow> Suc n \<le> m)"
        by (auto simp: shift)
      then show "\<exists>n. token_at (c # cs) n tok \<and> (\<forall>m t. token_at (c # cs) m t \<longrightarrow> n \<le> m)" ..
    next
      assume "\<exists>n. token_at (c # cs) n tok \<and> (\<forall>m t. token_at (c # cs) m t \<longrightarrow> n \<le> m)"
      then obtain n where n: "token_at (c # cs) n tok"
        and least: "\<forall>m t. token_at (c # cs) m t \<longrightarrow> n \<le> m" by blast
      from n obtain n' where n': "n = Suc n'" "token_at cs n' tok" by (auto simp: shift)
      have "\<forall>m t. token_at cs m t \<longrightarrow> n' \<le> m"
      proof (intro allI impI)
        fix m t assume "token_at cs m t"
        then have "token_at (c # cs) (Suc m) t" by (simp add: token_at_Cons)
        with least n' show "n' \<le> m" by auto
      qed
      with n' show "\<exists>n. token_at cs n tok \<and> (\<forall>m t. token_at cs m t \<longrightarrow> n \<le> m)" by blast
    qed
    finally show ?thesis .
  qed
qed

lemma re_search_count_nonempty: "re_search_count stats = Some tok \<Longrightarrow> tok \<noteq> []"
  by (auto simp: re_search_count_leftmost token_at_def)

lemma scrape_of_stats:
  assumes "tools_result pg = None" and "stats_result pg = Inr stats"
  shows "fst (scrape_result_count pg w) = re_search_count stats"
  using assms re_search_count_nonempty [of stats]
  by (auto simp: scrape_result_count_def split: option.splits)

text \<open>
  Claim C4. When the "Tools" click and the wait for the result-stats element succeed, the
  scrape returns \<open>tok\<close> exactly when \<open>tok\<close> is the leftmost token of digits and commas
  followed by \<open>" result"\<close> (letter case ignored) in the stats text; the token is returned
  as it stands in the text, commas included. The witness is the text
  \<open>About 71,60,000 results (0.42 seconds)\<close>, which gives \<open>71,60,000\<close>.
\<close>

theorem scrape_returns_leftmost_count_token:
  assumes "tools_result pg = None" and "stats_result pg = Inr stats"
  shows "fst (scrape_result_count pg w) = Some tok \<longleftrightarrow>
           (\<exists>n. token_at stats n tok \<and> (\<forall>m t. token_at stats m t \<longrightarrow> n \<le> m))"
  using scrape_of_stats [OF assms] by (simp add: re_search_count_leftmost)

theorem scrape_returns_leftmost_count_token_witness:
  "tools_result example_page = None
   \<and> stats_result example_page = Inr ''About 71,60,000 results (0.42 seconds)''
   \<and> fst (scrape_result_count example_page example_world) = Some ''71,60,000''
   \<and> (\<exists>n. token_at ''About 71,60,000 results (0.42 seconds)'' n ''71,60,000''
          \<and> (\<forall>m t. token_at ''About 71,60,000 results (0.42 seconds)'' m t \<longrightarrow> n \<le> m))"
proof -
  have a: "tools_result example_page = None" by (simp add: example_page_def)
  have b: "stats_result example_page = Inr ''About 71,60,000 results (0.42 seconds)''"
    by (simp add: example_page_def)
  have c: "fst (scrape_result_count example_page example_world) = Some ''71,60,000''"
    by (simp add: run_defs example_defs)
  from scrape_returns_leftmost_count_token [OF a b, of example_world "''71,60,000''"] a b c
  show ?thesis by simp
qed

text \<open>
  Claim C3 (the code departs from it). A stats text in which the pattern finds nothing
  makes \<open>scrape_result_count\<close> end without a \<open>return\<close>: its value is \<open>None\<close>, no
  failure is logged, and \<open>main\<close> writes \<open>str(None)\<close> to the cell.
\<close>

theorem scrape_without_match_returns_None:
  "fst (scrape_result_count example_page_no_match example_world) = None
   \<and> (\<exists>w'. process_query example_config example_page_no_match 7 4 ''first query'' example_world
               = (Inr (), w')
           \<and> cells (sheet w') (4, 7) = ''None'' \<and> logs w' = [])"
  by (simp add: run_defs example_defs example_page_no_match_def effect_simps update_cell_cells)

section \<open>The header scan\<close>

lemma scan_headers_append:
  "scan_headers i l (xs @ ys) = scan_headers (i + length xs) (scan_headers i l xs) ys"
  by (induction xs arbitrary: i l) auto

lemma scan_headers_none:
  "list_all (\<lambda>x. \<not> is_date_header x) xs \<Longrightarrow> scan_headers i l xs = l"
  by (induction xs arbitrary: i) auto

lemma scan_headers_snoc:
  "scan_headers i l (xs @ [x]) =
     (if is_date_header x then i + length xs + 1 else scan_headers i l xs)"
  by (simp add: scan_headers_append)

lemma last_tracking_snoc:
  "last_tracking_col_index (xs @ [x]) =
     (if is_date_header x then length xs + 1 else last_tracking_col_index xs)"
  by (simp add: last_tracking_col_index_def scan_headers_snoc)

lemma last_tracking_cases:
  "(last_tracking_col_index xs = 0 \<and> list_all (\<lambda>x. \<not> is_date_header x) xs)
   \<or> (0 < last_tracking_col_index xs \<and> last_tracking_col_index xs \<le> length xs
      \<and> is_date_header (xs ! (last_tracking_col_index xs - 1))
      \<and> list_all (\<lambda>x. \<not> is_date_header x) (drop (last_tracking_col_index xs) xs))"
proof (induction xs rule: rev_induct)
  case Nil
  show ?case by (simp add: last_tracking_col_index_def)
next
  case (snoc x xs)
  show ?case
  proof (cases "is_date_header x")
    case True
    then show ?thesis by (simp add: last_tracking_snoc)
  next
    case False
    with snoc show ?thesis
      by (auto simp: last_tracking_snoc nth_append)
  qed
qed

lemma last_tracking_rightmost:
  assumes "j < length xs" and "is_date_header (xs ! j)"
    and "\<And>k. j < k \<Longrightarrow> k < length xs \<Longrightarrow> \<not> is_date_header (xs ! k)"
  shows "last_tracking_col_index xs = j + 1"
proof -
  have split: "xs = take j xs @ [xs ! j] @ drop (Suc j) xs"
    using assms(1) by (simp add: Cons_nth_drop_Suc)
  have tail: "list_all (\<lambda>x. \<not> is_date_header x) (drop (Suc j) xs)"
    unfolding list_all_length using assms(3) by simp
  have "last_tracking_col_index xs = last_tracking_col_index ((take j xs @ [xs ! j]) @ drop (Suc j) xs)"
    using split by simp
  also have "\<dots> = last_tracking_col_index (take j xs @ [xs ! j])"
    unfolding last_tracking_col_index_def scan_headers_append [of 0 0 "take j xs @ [xs ! j]"]
    using tail by (rule scan_headers_none)
  also have "\<dots> = j + 1"
    using assms(1,2) by (simp add: last_tracking_snoc)
  finally show ?thesis .
qed

lemma last_tracking_zero_iff:
  "last_tracking_col_index xs = 0 \<longleftrightarrow> list_all (\<lambda>x. \<not> is_date_header x) xs"
proof
  assume "last_tracking_col_index xs = 0"
  with last_tracking_cases [of xs] show "list_all (\<lambda>x. \<not> is_date_header x) xs" by auto
next
  assume "list_all (\<lambda>x. \<not> is_date_header x) xs"
  then show "last_tracking_col_index xs = 0"
    by (simp add: last_tracking_col_index_def scan_headers_none)
qed

section \<open>Preparation of the target column\<close>

lemma every_class_is_Exception: "is_Exception c"
  by (cases c) simp_all

lemma prepare_no_header:
  assumes "last_tracking_col_index (row_values (sheet w) DATE_HEADER_ROW) = 0"
  shows "prepare_sheet_and_get_target_column today w =
           (Inl no_header_exn,
            logging ERROR (''Failed to prepare the sheet: '' @ exn_msg no_header_exn) w)"
  using assms by (simp add: prepare_sheet_and_get_target_column_def)

lemma prepare_header:
  assumes "last_tracking_col_index (row_values (sheet w) DATE_HEADER_ROW) = c" and "0 < c"
  shows "prepare_sheet_and_get_target_column today w =
           (Inr (c + 1),
            ws_update_cell DATE_HEADER_ROW (c + 1) (strftime_d_b_Y today) (ws_insert_cols (c + 1) w))"
  using assms by (simp add: prepare_sheet_and_get_target_column_def Let_def)

lemma main_without_header:
  assumes "last_tracking_col_index (row_values (sheet w) DATE_HEADER_ROW) = 0"
  shows "\<exists>w'. main cfg env w = (None, w') \<and> browser_ops w' = browser_ops w
            \<and> sheet w' = sheet w \<and> sheet_calls w' = sheet_calls w \<and> driver w' = DriverNone"
proof (cases "connect_result env")
  case None
  have "last_tracking_col_index (row_values (sheet (w\<lparr>driver := DriverNone\<rparr>)) DATE_HEADER_ROW) = 0"
    using assms by simp
  from prepare_no_header [OF this] None show ?thesis
    by (simp add: main_def main_try_def main_except_def main_finally_def effect_simps
          every_class_is_Exception)
next
  case (Some e)
  then show ?thesis
    by (simp add: main_def main_try_def main_except_def main_finally_def effect_simps
          every_class_is_Exception)
qed

text \<open>
  Claim C2. With \<open>hdr\<close> the values of the header row: when cell \<open>j\<close> (from 0) is the
  rightmost date-like cell of \<open>hdr\<close>, the preparation returns \<open>j + 2\<close>, one plus the 1-based
  index of that cell, after inserting a column at that index and writing today's date into
  its header cell. When no cell of \<open>hdr\<close> is date-like, the preparation raises, the
  worksheet is left as it was (no column inserted), and the whole run ends without any
  operation on the browser. The header row \<open>["", "", "01-Jan-24", "15-Jan-24", ""]\<close> gives
  target column 5.
\<close>

theorem prepare_target_column:
  assumes "hdr = row_values (sheet w) DATE_HEADER_ROW"
  shows "(\<forall>j. j < length hdr \<and> is_date_header (hdr ! j)
              \<and> (\<forall>k. j < k \<and> k < length hdr \<longrightarrow> \<not> is_date_header (hdr ! k))
            \<longrightarrow> prepare_sheet_and_get_target_column today w =
                  (Inr (j + 2),
                   ws_update_cell DATE_HEADER_ROW (j + 2) (strftime_d_b_Y today)
                     (ws_insert_cols (j + 2) w)))
         \<and> (list_all (\<lambda>x. \<not> is_date_header x) hdr
            \<longrightarrow> (\<exists>w1. prepare_sheet_and_get_target_column today w = (Inl no_header_exn, w1)
                      \<and> sheet w1 = sheet w \<and> sheet_calls w1 = sheet_calls w)
                \<and> (\<exists>w'. main cfg env w = (None, w') \<and> browser_ops w' = browser_ops w
                      \<and> sheet w' = sheet w \<and> sheet_calls w' = sheet_calls w
                      \<and> driver w' = DriverNone))
         \<and> last_tracking_col_index ['''', '''', ''01-Jan-24'', ''15-Jan-24'', ''''] + 1 = 5"
proof (intro conjI allI impI)
  fix j
  assume j: "j < length hdr \<and> is_date_header (hdr ! j)
              \<and> (\<forall>k. j < k \<and> k < length hdr \<longrightarrow> \<not> is_date_header (hdr ! k))"
  then have "last_tracking_col_index hdr = j + 1"
    by (intro last_tracking_rightmost) auto
  then have "last_tracking_col_index (row_values (sheet w) DATE_HEADER_ROW) = j + 1"
    using assms by simp
  from prepare_header [OF this] show "prepare_sheet_and_get_target_column today w =
                  (Inr (j + 2),
                   ws_update_cell DATE_HEADER_ROW (j + 2) (strftime_d_b_Y today)
                     (ws_insert_cols (j + 2) w))"
    by simp
next
  assume "list_all (\<lambda>x. \<not> is_date_header x) hdr"
  then have z: "last_tracking_col_index (row_values (sheet w) DATE_HEADER_ROW) = 0"
    using assms by (simp add: last_tracking_zero_iff)
  from prepare_no_header [OF z]
  show "\<exists>w1. prepare_sheet_and_get_target_column today w = (Inl no_header_exn, w1)
                      \<and> sheet w1 = sheet w \<and> sheet_calls w1 = sheet_calls w"
    by (simp add: effect_simps)
  from main_without_header [OF z]
  show "\<exists>w'. main cfg env w = (None, w') \<and> browser_ops w' = browser_ops w
                      \<and> sheet w' = sheet w \<and> sheet_calls w' = sheet_calls w
                      \<and> driver w' = DriverNone" .
next
  show "last_tracking_col_index ['''', '''', ''01-Jan-24'', ''15-Jan-24'', ''''] + 1 = 5"
    by (simp add: last_tracking_col_index_def is_date_header_def is_digit_def)
qed

lemma example_header_row:
  "row_values (sheet example_world) DATE_HEADER_ROW = ['''', '''', '''', '''', ''01-Jan-24'', ''15-Jan-24'']"
  by code_simp

lemma example_no_header_row:
  "row_values (sheet example_world_no_header) DATE_HEADER_ROW = ['''', '''', '''', '''', ''Notes'']"
  by code_simp

theorem prepare_target_column_witness:
  "fst (prepare_sheet_and_get_target_column (now example_env) example_world) = Inr 7
   \<and> sheet_calls (snd (prepare_sheet_and_get_target_column (now example_env) example_world))
       = [InsertCols 7, UpdateCell 2 7 ''25-May-2024'']
   \<and> fst (prepare_sheet_and_get_target_column (now example_env) example_world_no_header)
       = Inl no_header_exn
   \<and> (\<exists>w'. main example_config example_env example_world_no_header = (None, w')
          \<and> browser_ops w' = [] \<and> sheet_calls w' = [] \<and> driver w' = DriverNone)
   \<and> last_tracking_col_index ['''', '''', ''01-Jan-24'', ''15-Jan-24'', ''''] + 1 = 5"
proof -
  let ?hdr = "['''', '''', '''', '''', ''01-Jan-24'', ''15-Jan-24'']"
  have h: "?hdr = row_values (sheet example_world) DATE_HEADER_ROW"
    by (simp add: example_header_row)
  have j: "5 < length ?hdr \<and> is_date_header (?hdr ! 5)
            \<and> (\<forall>k. 5 < k \<and> k < length ?hdr \<longrightarrow> \<not> is_date_header (?hdr ! k))"
    by (simp add: is_date_header_def is_digit_def)
  have d: "strftime_d_b_Y (now example_env) = ''25-May-2024''"
    by code_simp
  let ?hdr0 = "['''', '''', '''', '''', ''Notes'']"
  have h0: "?hdr0 = row_values (sheet example_world_no_header) DATE_HEADER_ROW"
    by (simp add: example_no_header_row)
  have n0: "list_all (\<lambda>x. \<not> is_date_header x) ?hdr0"
    by (simp add: is_date_header_def is_digit_def)
  have e: "browser_ops example_world_no_header = [] \<and> sheet_calls example_world_no_header = []"
    by (simp add: example_world_no_header_def example_world_def)
  note t1 = prepare_target_column [OF h, of "now example_env" example_config example_env]
  note t0 = prepare_target_column [OF h0, of "now example_env" example_config example_env]
  have r1: "prepare_sheet_and_get_target_column (now example_env) example_world =
              (Inr (5 + 2),
               ws_update_cell DATE_HEADER_ROW (5 + 2) (strftime_d_b_Y (now example_env))
                 (ws_insert_cols (5 + 2) example_world))"
    using t1 [THEN conjunct1, rule_format, OF j] .
  have a: "fst (prepare_sheet_and_get_target_column (now example_env) example_world) = Inr 7"
    unfolding r1 by simp
  have b: "sheet_calls (snd (prepare_sheet_and_get_target_column (now example_env) example_world))
       = [InsertCols 7, UpdateCell 2 7 ''25-May-2024'']"
    unfolding r1 by (simp add: effect_simps d DATE_HEADER_ROW_def example_world_def)
  have r0: "(\<exists>w1. prepare_sheet_and_get_target_column (now example_env) example_world_no_header
                    = (Inl no_header_exn, w1)
                \<and> sheet w1 = sheet example_world_no_header
                \<and> sheet_calls w1 = sheet_calls example_world_no_header)
            \<and> (\<exists>w'. main example_config example_env example_world_no_header = (None, w')
                \<and> browser_ops w' = browser_ops example_world_no_header
                \<and> sheet w' = sheet example_world_no_header
                \<and> sheet_calls w' = sheet_calls example_world_no_header
                \<and> driver w' = DriverNone)"
    using t0 [THEN conjunct2, THEN conjunct1, rule_format, OF n0] .
  have c: "fst (prepare_sheet_and_get_target_column (now example_env) example_world_no_header)
       = Inl no_header_exn"
    using r0 by auto
  have m: "\<exists>w'. main example_config example_env example_world_no_header = (None, w')
          \<and> browser_ops w' = [] \<and> sheet_calls w' = [] \<and> driver w' = DriverNone"
    using r0 e by auto
  have x: "last_tracking_col_index ['''', '''', ''01-Jan-24'', ''15-Jan-24'', ''''] + 1 = 5"
    using t1 [THEN conjunct2, THEN conjunct2] .
  from a b c m x show ?thesis by blast
qed

section \<open>The stamped date and the next run\<close>

lemma is_digit_digit_char: "is_digit (digit_char n)"
proof -
  have "n mod 10 = 0 \<or> n mod 10 = 1 \<or> n mod 10 = 2 \<or> n mod 10 = 3 \<or> n mod 10 = 4
        \<or> n mod 10 = 5 \<or> n mod 10 = 6 \<or> n mod 10 = 7 \<or> n mod 10 = 8 \<or> n mod 10 = 9"
    by presburger
  then show ?thesis
    unfolding is_digit_def digit_char_def
    by (elim disjE) (simp_all add: char_of_eq_iff)
qed

lemma strftime_is_date_header: "is_date_header (strftime_d_b_Y d)"
  using is_digit_digit_char [of "date_day d div 10"]
  by (simp add: is_date_header_def strftime_d_b_Y_def two_digits_def)

lemma strip_trailing_split:
  "xs = strip_trailing b xs @ rev (takeWhile (\<lambda>x. x = b) (rev xs))"
proof -
  have "strip_trailing b xs @ rev (takeWhile (\<lambda>x. x = b) (rev xs))
          = rev (takeWhile (\<lambda>x. x = b) (rev xs) @ dropWhile (\<lambda>x. x = b) (rev xs))"
    by (simp only: strip_trailing_def rev_append)
  also have "\<dots> = rev (rev xs)"
    by (simp only: takeWhile_dropWhile_id)
  finally show ?thesis by simp
qed

lemma blank_not_date_header: "\<not> is_date_header []"
  by (simp add: is_date_header_def)

lemma last_tracking_strip_trailing:
  "last_tracking_col_index (strip_trailing [] xs) = last_tracking_col_index xs"
proof -
  let ?tl = "rev (takeWhile (\<lambda>x. x = []) (rev xs))"
  have "list_all (\<lambda>x. x = []) ?tl"
    unfolding list_all_iff using set_takeWhileD by fastforce
  then have none: "list_all (\<lambda>x. \<not> is_date_header x) ?tl"
    unfolding list_all_iff using blank_not_date_header by auto
  have "last_tracking_col_index xs = last_tracking_col_index (strip_trailing [] xs @ ?tl)"
    using strip_trailing_split [of xs "[]"] by simp
  also have "\<dots> = last_tracking_col_index (strip_trailing [] xs)"
    unfolding last_tracking_col_index_def scan_headers_append
    using none by (rule scan_headers_none)
  finally show ?thesis by simp
qed

lemma last_tracking_insert:
  assumes "last_tracking_col_index xs = l" and "is_date_header v"
  shows "last_tracking_col_index (take l xs @ [v] @ drop l xs) = l + 1"
proof -
  have le: "l \<le> length xs" and tail: "list_all (\<lambda>x. \<not> is_date_header x) (drop l xs)"
    using last_tracking_cases [of xs] assms(1) by auto
  have "last_tracking_col_index (take l xs @ [v] @ drop l xs)
          = last_tracking_col_index ((take l xs @ [v]) @ drop l xs)"
    by simp
  also have "\<dots> = last_tracking_col_index (take l xs @ [v])"
    unfolding last_tracking_col_index_def scan_headers_append [of 0 0 "take l xs @ [v]"]
    using tail by (rule scan_headers_none)
  also have "\<dots> = l + 1"
    using assms(2) le by (simp add: last_tracking_snoc)
  finally show ?thesis .
qed

lemma row_after_insert:
  assumes "l \<le> col_count ws"
  shows "map (\<lambda>c. cells (update_cell r (Suc l) v (insert_cols (Suc l) ws)) (r, c))
             [1..<Suc (Suc (col_count ws))]
         = take l (map (\<lambda>c. cells ws (r, c)) [1..<Suc (col_count ws)]) @ [v]
           @ drop l (map (\<lambda>c. cells ws (r, c)) [1..<Suc (col_count ws)])"
    (is "?lhs = ?rhs")
proof (rule nth_equalityI)
  show "length ?lhs = length ?rhs"
    using assms by (simp del: upt_Suc)
next
  fix i assume "i < length ?lhs"
  then have i: "i < Suc (col_count ws)" by (simp del: upt_Suc)
  have lhs: "?lhs ! i = cells (update_cell r (Suc l) v (insert_cols (Suc l) ws)) (r, Suc i)"
    using i by (simp add: nth_map_upt del: upt_Suc)
  consider "i < l" | "i = l" | "l < i" by linarith
  then show "?lhs ! i = ?rhs ! i"
  proof cases
    case 1
    then show ?thesis
      using i assms unfolding lhs
      by (simp add: nth_append update_cell_cells insert_cols_def nth_map_upt del: upt_Suc)
  next
    case 2
    then show ?thesis
      using i assms unfolding lhs
      by (simp add: nth_append update_cell_cells del: upt_Suc)
  next
    case 3
    then obtain d where d: "i = Suc (l + d)"
      by (metis less_imp_Suc_add)
    show ?thesis
      using i assms unfolding lhs d
      by (simp add: nth_append update_cell_cells insert_cols_def nth_map_upt del: upt_Suc)
  qed
qed

lemma header_after_prepare:
  assumes "prepare_sheet_and_get_target_column today w = (Inr c, w')"
  shows "last_tracking_col_index (row_values (sheet w') DATE_HEADER_ROW) = c
         \<and> cells (sheet w') (DATE_HEADER_ROW, c) = strftime_d_b_Y today"
proof -
  let ?F = "map (\<lambda>c. cells (sheet w) (DATE_HEADER_ROW, c)) [1..<Suc (col_count (sheet w))]"
  define l where "l = last_tracking_col_index (row_values (sheet w) DATE_HEADER_ROW)"
  from assms have pos: "0 < l" and c: "c = Suc l"
    and w': "w' = ws_update_cell DATE_HEADER_ROW (Suc l) (strftime_d_b_Y today) (ws_insert_cols (Suc l) w)"
    by (auto simp: prepare_sheet_and_get_target_column_def Let_def l_def split: if_splits)
  have lF: "last_tracking_col_index ?F = l"
    by (simp add: l_def row_values_def last_tracking_strip_trailing)
  have le: "l \<le> col_count (sheet w)"
    using last_tracking_cases [of ?F] lF by auto
  have sheet': "sheet w' = update_cell DATE_HEADER_ROW (Suc l) (strftime_d_b_Y today)
                             (insert_cols (Suc l) (sheet w))"
    by (simp add: w' effect_simps)
  have cc: "col_count (sheet w') = Suc (col_count (sheet w))"
    by (simp add: sheet' update_cell_col_count insert_cols_def)
  have "last_tracking_col_index (row_values (sheet w') DATE_HEADER_ROW)
          = last_tracking_col_index
              (map (\<lambda>c. cells (sheet w') (DATE_HEADER_ROW, c)) [1..<Suc (Suc (col_count (sheet w)))])"
    by (simp add: row_values_def last_tracking_strip_trailing cc del: upt_Suc)
  also have "\<dots> = last_tracking_col_index (take l ?F @ [strftime_d_b_Y today] @ drop l ?F)"
    unfolding sheet' by (simp only: row_after_insert [OF le])
  also have "\<dots> = l + 1"
    using lF strftime_is_date_header by (rule last_tracking_insert)
  finally have "last_tracking_col_index (row_values (sheet w') DATE_HEADER_ROW) = c"
    using c by simp
  moreover have "cells (sheet w') (DATE_HEADER_ROW, c) = strftime_d_b_Y today"
    by (simp add: sheet' c update_cell_cells)
  ultimately show ?thesis by simp
qed

text \<open>
  Claim C10. The date that the preparation stamps, in the format \<open>%d-%b-%Y\<close>, contains a
  digit and a \<open>-\<close>, so it is itself date-like for the column scan. After a preparation that
  returned column \<open>c\<close>, the header cell of column \<open>c\<close> holds that date, the rightmost
  date-like cell of the header row is the one of column \<open>c\<close>, and a second preparation (on
  any date) returns \<open>c + 1\<close>.
\<close>

theorem stamped_date_is_next_anchor:
  "is_date_header (strftime_d_b_Y today)
   \<and> (\<forall>c w'. prepare_sheet_and_get_target_column today w = (Inr c, w')
        \<longrightarrow> cells (sheet w') (DATE_HEADER_ROW, c) = strftime_d_b_Y today
            \<and> last_tracking_col_index (row_values (sheet w') DATE_HEADER_ROW) = c
            \<and> fst (prepare_sheet_and_get_target_column later w') = Inr (c + 1))"
proof (intro conjI allI impI)
  show "is_date_header (strftime_d_b_Y today)" by (rule strftime_is_date_header)
next
  fix c w'
  assume p: "prepare_sheet_and_get_target_column today w = (Inr c, w')"
  note h = header_after_prepare [OF p]
  from h show "cells (sheet w') (DATE_HEADER_ROW, c) = strftime_d_b_Y today" by simp
  from h show "last_tracking_col_index (row_values (sheet w') DATE_HEADER_ROW) = c" by simp
  from p have "0 < c"
    by (auto simp: prepare_sheet_and_get_target_column_def Let_def split: if_splits)
  with h show "fst (prepare_sheet_and_get_target_column later w') = Inr (c + 1)"
    by (simp add: prepare_header)
qed

theorem stamped_date_is_next_anchor_witness:
  "\<exists>w'. prepare_sheet_and_get_target_column (now example_env) example_world = (Inr 7, w')
      \<and> is_date_header ''25-May-2024''
      \<and> cells (sheet w') (DATE_HEADER_ROW, 7) = ''25-May-2024''
      \<and> last_tracking_col_index (row_values (sheet w') DATE_HEADER_ROW) = 7
      \<and> fst (prepare_sheet_and_get_target_column (now example_env) w') = Inr 8"
proof -
  have d: "strftime_d_b_Y (now example_env) = ''25-May-2024''"
    by code_simp
  have l: "last_tracking_col_index (row_values (sheet example_world) DATE_HEADER_ROW) = 6"
    unfolding example_header_row
    by (simp add: last_tracking_col_index_def is_date_header_def is_digit_def)
  obtain w' where p: "prepare_sheet_and_get_target_column (now example_env) example_world = (Inr 7, w')"
    using prepare_header [OF l, of "now example_env"] by simp
  from stamped_date_is_next_anchor [of "now example_env" example_world "now example_env"] p d
  show ?thesis by auto
qed

section \<open>The CAPTCHA handler\<close>

lemma polls_in_time_Nil: "\<not> polls_in_time cfg [] n"
  by (simp add: polls_in_time_def)

lemma polls_in_time_0:
  "polls_in_time cfg (elapsed # later) 0 = (elapsed < CAPTCHA_WAIT_TIMEOUT cfg)"
  by (simp add: polls_in_time_def)

lemma polls_in_time_Suc:
  "polls_in_time cfg (elapsed # later) (Suc n)
     = (elapsed < CAPTCHA_WAIT_TIMEOUT cfg \<and> polls_in_time cfg later n)"
  by (auto simp: polls_in_time_def)

lemma polls_in_time_late:
  "\<not> elapsed < CAPTCHA_WAIT_TIMEOUT cfg \<Longrightarrow> \<not> polls_in_time cfg (elapsed # later) n"
  by (cases n) (simp_all add: polls_in_time_0 polls_in_time_Suc)

lemma captcha_loop_emails:
  "emails (snd (captcha_loop cfg pg keyword k readings alert_sent w)) = emails w @
     (if \<not> alert_sent \<and> ENABLE_EMAIL_NOTIFICATIONS cfg
         \<and> polls_in_time cfg readings 0 \<and> blocked (captcha_source pg k)
      then [(captcha_subject, captcha_body keyword)] else [])"
  by (induction cfg pg keyword k readings alert_sent w rule: captcha_loop.induct)
     (auto simp: effect_simps alert_once_simps polls_in_time_Nil polls_in_time_0)

lemma captcha_loop_solved_iff:
  "fst (captcha_loop cfg pg keyword k readings alert_sent w) \<longleftrightarrow>
     (\<exists>n. polls_in_time cfg readings n \<and> \<not> blocked (captcha_source pg (k + n)))"
proof (induction readings arbitrary: k alert_sent w)
  case Nil
  show ?case by (simp add: polls_in_time_Nil)
next
  case (Cons elapsed later)
  show ?case
  proof (cases "elapsed < CAPTCHA_WAIT_TIMEOUT cfg")
    case False
    then show ?thesis by (simp add: polls_in_time_late)
  next
    case True
    show ?thesis
    proof (cases "blocked (captcha_source pg k)")
      case False
      have "polls_in_time cfg (elapsed # later) 0 \<and> \<not> blocked (captcha_source pg (k + 0))"
        using True False by (simp add: polls_in_time_0)
      then have "\<exists>n. polls_in_time cfg (elapsed # later) n \<and> \<not> blocked (captcha_source pg (k + n))" ..
      with True False show ?thesis by simp
    next
      case blk: True
      let ?w1 = "alert_once cfg keyword alert_sent (browser PageSource w)"
      have "fst (captcha_loop cfg pg keyword k (elapsed # later) alert_sent w)
              = fst (captcha_loop cfg pg keyword (Suc k) later True ?w1)"
        using True blk by simp
      also have "\<dots> \<longleftrightarrow> (\<exists>n. polls_in_time cfg later n \<and> \<not> blocked (captcha_source pg (Suc k + n)))"
        by (rule Cons.IH)
      also have "\<dots> \<longleftrightarrow> (\<exists>n. polls_in_time cfg (elapsed # later) n
                               \<and> \<not> blocked (captcha_source pg (k + n)))"
      proof
        assume "\<exists>n. polls_in_time cfg later n \<and> \<not> blocked (captcha_source pg (Suc k + n))"
        then obtain n where "polls_in_time cfg later n" "\<not> blocked (captcha_source pg (Suc k + n))"
          by blast
        then have "polls_in_time cfg (elapsed # later) (Suc n)
                   \<and> \<not> blocked (captcha_source pg (k + Suc n))"
          using True by (simp add: polls_in_time_Suc)
        then show "\<exists>n. polls_in_time cfg (elapsed # later) n \<and> \<not> blocked (captcha_source pg (k + n))" ..
      next
        assume "\<exists>n. polls_in_time cfg (elapsed # later) n \<and> \<not> blocked (captcha_source pg (k + n))"
        then obtain n where n: "polls_in_time cfg (elapsed # later) n"
          "\<not> blocked (captcha_source pg (k + n))" by blast
        with blk obtain n' where n': "n = Suc n'" by (cases n) auto
        from n have "polls_in_time cfg later n' \<and> \<not> blocked (captcha_source pg (Suc k + n'))"
          unfolding n' by (simp add: polls_in_time_Suc)
        then show "\<exists>n. polls_in_time cfg later n \<and> \<not> blocked (captcha_source pg (Suc k + n))" ..
      qed
      finally show ?thesis .
    qed
  qed
qed

lemma captcha_loop_polls:
  "\<exists>m. browser_ops (snd (captcha_loop cfg pg keyword k readings alert_sent w))
          = browser_ops w @ replicate m PageSource
      \<and> (\<forall>j. j < m \<longrightarrow> polls_in_time cfg readings j)
      \<and> (\<forall>j. Suc j < m \<longrightarrow> blocked (captcha_source pg (k + j)))
      \<and> (if fst (captcha_loop cfg pg keyword k readings alert_sent w)
          then 0 < m \<and> \<not> blocked (captcha_source pg (k + (m - 1)))
               \<and> logs (snd (captcha_loop cfg pg keyword k readings alert_sent w)) = logs w
          else (\<forall>j. j < m \<longrightarrow> blocked (captcha_source pg (k + j)))
               \<and> \<not> polls_in_time cfg readings m
               \<and> logs (snd (captcha_loop cfg pg keyword k readings alert_sent w))
                   = logs w @ [(ERROR, captcha_timeout_log cfg)])"
proof (induction readings arbitrary: k alert_sent w)
  case Nil
  show ?case by (rule exI [where x = 0]) (simp add: effect_simps polls_in_time_Nil)
next
  case (Cons elapsed later)
  show ?case
  proof (cases "elapsed < CAPTCHA_WAIT_TIMEOUT cfg")
    case False
    then show ?thesis
      by (intro exI [where x = 0]) (simp add: effect_simps polls_in_time_late)
  next
    case True
    show ?thesis
    proof (cases "blocked (captcha_source pg k)")
      case False
      with True show ?thesis
        by (intro exI [where x = 1]) (simp add: effect_simps polls_in_time_0)
    next
      case blk: True
      let ?w1 = "alert_once cfg keyword alert_sent (browser PageSource w)"
      let ?r = "captcha_loop cfg pg keyword (Suc k) later True ?w1"
      have unfold: "captcha_loop cfg pg keyword k (elapsed # later) alert_sent w = ?r"
        using True blk by simp
      have lg1: "logs ?w1 = logs w" by (simp add: effect_simps alert_once_simps)
      from Cons.IH [of "Suc k" True ?w1] obtain m where
        ops0: "browser_ops (snd ?r) = browser_ops ?w1 @ replicate m PageSource"
        and made: "\<forall>j. j < m \<longrightarrow> polls_in_time cfg later j"
        and before: "\<forall>j. Suc j < m \<longrightarrow> blocked (captcha_source pg (Suc k + j))"
        and last: "if fst ?r then 0 < m \<and> \<not> blocked (captcha_source pg (Suc k + (m - 1)))
                          \<and> logs (snd ?r) = logs ?w1
               else (\<forall>j. j < m \<longrightarrow> blocked (captcha_source pg (Suc k + j)))
                    \<and> \<not> polls_in_time cfg later m
                    \<and> logs (snd ?r) = logs ?w1 @ [(ERROR, captcha_timeout_log cfg)]"
        by blast
      have ops: "browser_ops (snd ?r) = browser_ops w @ replicate (Suc m) PageSource"
        using ops0 by (simp add: effect_simps alert_once_simps)
      have made': "\<forall>j. j < Suc m \<longrightarrow> polls_in_time cfg (elapsed # later) j"
      proof (intro allI impI)
        fix j assume "j < Suc m"
        then show "polls_in_time cfg (elapsed # later) j"
          using True made by (cases j) (simp_all add: polls_in_time_0 polls_in_time_Suc)
      qed
      have before': "\<forall>j. Suc j < Suc m \<longrightarrow> blocked (captcha_source pg (k + j))"
      proof (intro allI impI)
        fix j assume "Suc j < Suc m"
        then show "blocked (captcha_source pg (k + j))"
          using blk before by (cases j) auto
      qed
      have last': "if fst ?r then 0 < Suc m \<and> \<not> blocked (captcha_source pg (k + (Suc m - 1)))
                          \<and> logs (snd ?r) = logs w
               else (\<forall>j. j < Suc m \<longrightarrow> blocked (captcha_source pg (k + j)))
                    \<and> \<not> polls_in_time cfg (elapsed # later) (Suc m)
                    \<and> logs (snd ?r) = logs w @ [(ERROR, captcha_timeout_log cfg)]"
      proof (cases "fst ?r")
        case True
        with last have "0 < m" and "\<not> blocked (captcha_source pg (Suc k + (m - 1)))"
          and "logs (snd ?r) = logs w" by (auto simp: lg1)
        then show ?thesis using True by (cases m) auto
      next
        case False
        with last have all: "\<forall>j. j < m \<longrightarrow> blocked (captcha_source pg (Suc k + j))"
          and late: "\<not> polls_in_time cfg later m"
          and lg: "logs (snd ?r) = logs w @ [(ERROR, captcha_timeout_log cfg)]"
          by (auto simp: lg1)
        have "\<forall>j. j < Suc m \<longrightarrow> blocked (captcha_source pg (k + j))"
        proof (intro allI impI)
          fix j assume "j < Suc m"
          then show "blocked (captcha_source pg (k + j))"
            using blk all by (cases j) auto
        qed
        with lg late False show ?thesis by (simp add: polls_in_time_Suc)
      qed
      from ops made' before' last' show ?thesis
        unfolding unfold by blast
    qed
  qed
qed

lemma handle_captcha_emails:
  "emails (snd (handle_captcha cfg pg keyword w)) = emails w @
     (if ENABLE_EMAIL_NOTIFICATIONS cfg \<and> polls_in_time cfg (captcha_clock pg) 0
         \<and> blocked (captcha_source pg 0)
      then [(captcha_subject, captcha_body keyword)] else [])"
  by (simp add: handle_captcha_def captcha_loop_emails effect_simps)

lemma handle_captcha_solved_iff:
  "fst (handle_captcha cfg pg keyword w) \<longleftrightarrow>
     (\<exists>n. polls_in_time cfg (captcha_clock pg) n \<and> \<not> blocked (captcha_source pg n))"
  by (simp add: handle_captcha_def captcha_loop_solved_iff)

lemma handle_captcha_polls:
  "\<exists>m. browser_ops (snd (handle_captcha cfg pg keyword w)) = browser_ops w @ replicate m PageSource
      \<and> (\<forall>j. j < m \<longrightarrow> polls_in_time cfg (captcha_clock pg) j)
      \<and> (\<forall>j. Suc j < m \<longrightarrow> blocked (captcha_source pg j))
      \<and> (fst (handle_captcha cfg pg keyword w) \<longrightarrow> 0 < m \<and> \<not> blocked (captcha_source pg (m - 1)))
      \<and> (\<not> fst (handle_captcha cfg pg keyword w)
           \<longrightarrow> (\<forall>j. j < m \<longrightarrow> blocked (captcha_source pg j))
               \<and> \<not> polls_in_time cfg (captcha_clock pg) m)"
proof -
  let ?w0 = "logging WARNING ''!!! CAPTCHA DETECTED !!! Pausing script and waiting for manual intervention.'' w"
  let ?r = "captcha_loop cfg pg keyword 0 (captcha_clock pg) False ?w0"
  from captcha_loop_polls [of cfg pg keyword 0 "captcha_clock pg" False ?w0]
  obtain m where a: "browser_ops (snd ?r) = browser_ops ?w0 @ replicate m PageSource"
    and b: "\<forall>j. j < m \<longrightarrow> polls_in_time cfg (captcha_clock pg) j"
    and c: "\<forall>j. Suc j < m \<longrightarrow> blocked (captcha_source pg (0 + j))"
    and d: "if fst ?r
          then 0 < m \<and> \<not> blocked (captcha_source pg (0 + (m - 1))) \<and> logs (snd ?r) = logs ?w0
          else (\<forall>j. j < m \<longrightarrow> blocked (captcha_source pg (0 + j)))
               \<and> \<not> polls_in_time cfg (captcha_clock pg) m
               \<and> logs (snd ?r) = logs ?w0 @ [(ERROR, captcha_timeout_log cfg)]"
    by blast
  have r: "handle_captcha cfg pg keyword w = ?r" by (simp add: handle_captcha_def)
  have a': "browser_ops (snd ?r) = browser_ops w @ replicate m PageSource"
    using a by (simp add: effect_simps)
  have c': "\<forall>j. Suc j < m \<longrightarrow> blocked (captcha_source pg j)" using c by simp
  have d1: "fst ?r \<longrightarrow> 0 < m \<and> \<not> blocked (captcha_source pg (m - 1))"
    using d by (cases "fst ?r") simp_all
  have d2: "\<not> fst ?r \<longrightarrow> (\<forall>j. j < m \<longrightarrow> blocked (captcha_source pg j))
               \<and> \<not> polls_in_time cfg (captcha_clock pg) m"
    using d by (cases "fst ?r") simp_all
  from a' b c' d1 d2 show ?thesis unfolding r by blast
qed

lemma captcha_failed_is_written:
  assumes query: "strip query \<noteq> []" and nav: "nav_result pg = None" and box: "box_result pg = None"
    and loaded: "blocked (loaded_source pg)" and wr: "write_result pg = None"
    and stays: "\<forall>n. polls_in_time cfg (captcha_clock pg) n \<longrightarrow> blocked (captcha_source pg n)"
  shows "\<exists>w'. process_query cfg pg target_col current_row query w = (Inr (), w')
           \<and> sheet_calls w' = sheet_calls w @ [UpdateCell current_row target_col ''CAPTCHA FAILED'']
           \<and> cells (sheet w') (current_row, target_col) = ''CAPTCHA FAILED''"
proof -
  let ?w1 = "browser PageSource (browser PressReturn (browser (TypeText query)
               (browser FindSearchBox (browser (Get ''https://www.google.com'') w))))"
  obtain solved w2 where hc: "handle_captcha cfg pg query ?w1 = (solved, w2)"
    by (cases "handle_captcha cfg pg query ?w1")
  have "\<not> fst (handle_captcha cfg pg query ?w1)"
    using stays by (simp add: handle_captcha_solved_iff)
  with hc have "\<not> solved" by simp
  moreover have "sheet w2 = sheet w \<and> sheet_calls w2 = sheet_calls w"
    using handle_captcha_sheet [OF hc] by (simp add: effect_simps)
  ultimately show ?thesis
    using query nav box loaded wr hc
    by (simp add: process_query_def find_and_type_in_search_box_def write_row_def py_str_def
          effect_simps update_cell_cells)
qed

text \<open>
  Claim C5, as stated, fails: an episode can end with no notification at all. In the first
  run the page shows no marker any more at the first poll of the handler; in the second the
  markers stay until the timeout, with notifications switched off in the configuration.
\<close>

theorem captcha_notification_counterexample:
  "(\<exists>w'. handle_captcha example_config example_page_solved ''first query'' example_world
            = (True, w')
        \<and> emails w' = emails example_world)
   \<and> (\<exists>w'. handle_captcha example_config_no_email example_page_blocked ''first query'' example_world
            = (False, w')
        \<and> emails w' = emails example_world)"
  by (simp add: handle_captcha_def blocked_def alert_once_def
        send_error_email_def logging_def browser_def
        example_defs example_page_solved_def example_page_blocked_def example_config_no_email_def)

text \<open>
  Claim C5, amended. The handler always returns. It sends at most one notification whatever
  the number of polls: exactly one when notifications are enabled and the first poll is made
  before the timeout and still shows a marker, none otherwise. Every poll it makes is made
  while the clock reads less than the timeout. It returns true exactly when some poll made
  before the timeout shows no marker, and then the poll it stops at is the first such poll;
  it returns false exactly when every poll made before the timeout still shows a marker,
  and then the loop condition has failed after the last poll. In that case, for the query
  \<open>j\<close> of the list, the pass of the main loop writes \<open>CAPTCHA FAILED\<close> to the cell of the row,
  from every state; and whenever the loop reaches that pass, the run of the whole loop is
  the run of the loop over the queries after \<open>j\<close>, from the state this pass left, with the
  pass of the next query (if there is one) as the next thing that runs.
\<close>

theorem captcha_episode:
  "(\<exists>solved w'. handle_captcha cfg pg query w = (solved, w')
      \<and> emails w' = emails w @
           (if ENABLE_EMAIL_NOTIFICATIONS cfg \<and> polls_in_time cfg (captcha_clock pg) 0
               \<and> blocked (captcha_source pg 0)
            then [(captcha_subject, captcha_body query)] else [])
      \<and> (solved \<longleftrightarrow>
           (\<exists>n. polls_in_time cfg (captcha_clock pg) n \<and> \<not> blocked (captcha_source pg n)))
      \<and> (\<exists>m. browser_ops w' = browser_ops w @ replicate m PageSource
            \<and> (\<forall>j. j < m \<longrightarrow> polls_in_time cfg (captcha_clock pg) j)
            \<and> (\<forall>j. Suc j < m \<longrightarrow> blocked (captcha_source pg j))
            \<and> (solved \<longrightarrow> 0 < m \<and> \<not> blocked (captcha_source pg (m - 1)))
            \<and> (\<not> solved \<longrightarrow> (\<forall>j. j < m \<longrightarrow> blocked (captcha_source pg j))
                               \<and> \<not> polls_in_time cfg (captcha_clock pg) m)))
   \<and> (j < length queries \<and> strip (queries ! j) \<noteq> [] \<and> nav_result (pgs j) = None
        \<and> box_result (pgs j) = None \<and> blocked (loaded_source (pgs j))
        \<and> write_result (pgs j) = None
        \<and> (\<forall>n. polls_in_time cfg (captcha_clock (pgs j)) n \<longrightarrow> blocked (captcha_source (pgs j) n))
      \<longrightarrow> (\<forall>ws. \<exists>ws'. process_query cfg (pgs j) target_col (PDP_START_ROW + j) (queries ! j) ws
                         = (Inr (), ws')
                \<and> sheet_calls ws'
                    = sheet_calls ws @ [UpdateCell (PDP_START_ROW + j) target_col ''CAPTCHA FAILED'']
                \<and> cells (sheet ws') (PDP_START_ROW + j, target_col) = ''CAPTCHA FAILED'')
          \<and> (\<forall>wj. process_queries cfg pgs target_col 0 (take j queries) w0 = (Inr (), wj)
                \<longrightarrow> (\<exists>wj'. process_query cfg (pgs j) target_col (PDP_START_ROW + j) (queries ! j) wj
                              = (Inr (), wj')
                       \<and> sheet_calls wj'
                           = sheet_calls wj @ [UpdateCell (PDP_START_ROW + j) target_col ''CAPTCHA FAILED'']
                       \<and> process_queries cfg pgs target_col 0 queries w0
                           = process_queries cfg pgs target_col (Suc j) (drop (Suc j) queries) wj'
                       \<and> (Suc j < length queries \<longrightarrow>
                            process_queries cfg pgs target_col 0 queries w0
                              = (case process_query cfg (pgs (Suc j)) target_col
                                        (PDP_START_ROW + Suc j) (queries ! Suc j) wj' of
                                   (Inl e, w2) \<Rightarrow> (Inl e, w2)
                                 | (Inr u, w2) \<Rightarrow>
                                     process_queries cfg pgs target_col (Suc (Suc j))
                                       (drop (Suc (Suc j)) queries) w2)))))"
proof (intro conjI impI allI)
  obtain solved w' where hc: "handle_captcha cfg pg query w = (solved, w')"
    by (cases "handle_captcha cfg pg query w")
  then have s: "solved = fst (handle_captcha cfg pg query w)"
    and w': "w' = snd (handle_captcha cfg pg query w)" by simp_all
  from handle_captcha_polls [of cfg pg query w] obtain m where
    "browser_ops w' = browser_ops w @ replicate m PageSource"
    "\<forall>j. j < m \<longrightarrow> polls_in_time cfg (captcha_clock pg) j"
    "\<forall>j. Suc j < m \<longrightarrow> blocked (captcha_source pg j)"
    "solved \<longrightarrow> 0 < m \<and> \<not> blocked (captcha_source pg (m - 1))"
    "\<not> solved \<longrightarrow> (\<forall>j. j < m \<longrightarrow> blocked (captcha_source pg j))
                     \<and> \<not> polls_in_time cfg (captcha_clock pg) m"
    unfolding s w' by blast
  then have polls: "\<exists>m. browser_ops w' = browser_ops w @ replicate m PageSource
            \<and> (\<forall>j. j < m \<longrightarrow> polls_in_time cfg (captcha_clock pg) j)
            \<and> (\<forall>j. Suc j < m \<longrightarrow> blocked (captcha_source pg j))
            \<and> (solved \<longrightarrow> 0 < m \<and> \<not> blocked (captcha_source pg (m - 1)))
            \<and> (\<not> solved \<longrightarrow> (\<forall>j. j < m \<longrightarrow> blocked (captcha_source pg j))
                               \<and> \<not> polls_in_time cfg (captcha_clock pg) m)"
    by blast
  have mail: "emails w' = emails w @
           (if ENABLE_EMAIL_NOTIFICATIONS cfg \<and> polls_in_time cfg (captcha_clock pg) 0
               \<and> blocked (captcha_source pg 0)
            then [(captcha_subject, captcha_body query)] else [])"
    unfolding w' by (rule handle_captcha_emails)
  have iff: "solved \<longleftrightarrow>
           (\<exists>n. polls_in_time cfg (captcha_clock pg) n \<and> \<not> blocked (captcha_source pg n))"
    unfolding s by (rule handle_captcha_solved_iff)
  from hc mail iff polls
  show "\<exists>solved w'. handle_captcha cfg pg query w = (solved, w')
      \<and> emails w' = emails w @
           (if ENABLE_EMAIL_NOTIFICATIONS cfg \<and> polls_in_time cfg (captcha_clock pg) 0
               \<and> blocked (captcha_source pg 0)
            then [(captcha_subject, captcha_body query)] else [])
      \<and> (solved \<longleftrightarrow>
           (\<exists>n. polls_in_time cfg (captcha_clock pg) n \<and> \<not> blocked (captcha_source pg n)))
      \<and> (\<exists>m. browser_ops w' = browser_ops w @ replicate m PageSource
            \<and> (\<forall>j. j < m \<longrightarrow> polls_in_time cfg (captcha_clock pg) j)
            \<and> (\<forall>j. Suc j < m \<longrightarrow> blocked (captcha_source pg j))
            \<and> (solved \<longrightarrow> 0 < m \<and> \<not> blocked (captcha_source pg (m - 1)))
            \<and> (\<not> solved \<longrightarrow> (\<forall>j. j < m \<longrightarrow> blocked (captcha_source pg j))
                               \<and> \<not> polls_in_time cfg (captcha_clock pg) m))"
    by blast
next
  fix ws
  assume h: "j < length queries \<and> strip (queries ! j) \<noteq> [] \<and> nav_result (pgs j) = None
        \<and> box_result (pgs j) = None \<and> blocked (loaded_source (pgs j))
        \<and> write_result (pgs j) = None
        \<and> (\<forall>n. polls_in_time cfg (captcha_clock (pgs j)) n \<longrightarrow> blocked (captcha_source (pgs j) n))"
  then show "\<exists>ws'. process_query cfg (pgs j) target_col (PDP_START_ROW + j) (queries ! j) ws
                         = (Inr (), ws')
                \<and> sheet_calls ws'
                    = sheet_calls ws @ [UpdateCell (PDP_START_ROW + j) target_col ''CAPTCHA FAILED'']
                \<and> cells (sheet ws') (PDP_START_ROW + j, target_col) = ''CAPTCHA FAILED''"
    by (intro captcha_failed_is_written) simp_all
next
  fix wj
  assume h: "j < length queries \<and> strip (queries ! j) \<noteq> [] \<and> nav_result (pgs j) = None
        \<and> box_result (pgs j) = None \<and> blocked (loaded_source (pgs j))
        \<and> write_result (pgs j) = None
        \<and> (\<forall>n. polls_in_time cfg (captcha_clock (pgs j)) n \<longrightarrow> blocked (captcha_source (pgs j) n))"
  assume reach: "process_queries cfg pgs target_col 0 (take j queries) w0 = (Inr (), wj)"
  from h have j: "j < length queries" by simp
  from h have "\<exists>wj'. process_query cfg (pgs j) target_col (PDP_START_ROW + j) (queries ! j) wj
                         = (Inr (), wj')
                \<and> sheet_calls wj'
                    = sheet_calls wj @ [UpdateCell (PDP_START_ROW + j) target_col ''CAPTCHA FAILED'']
                \<and> cells (sheet wj') (PDP_START_ROW + j, target_col) = ''CAPTCHA FAILED''"
    by (intro captcha_failed_is_written) simp_all
  then obtain wj' where
    pass: "process_query cfg (pgs j) target_col (PDP_START_ROW + j) (queries ! j) wj = (Inr (), wj')"
    and calls: "sheet_calls wj'
                  = sheet_calls wj @ [UpdateCell (PDP_START_ROW + j) target_col ''CAPTCHA FAILED'']"
    by blast
  note on = loop_goes_on [OF j reach pass]
  have "Suc j < length queries \<longrightarrow>
          process_queries cfg pgs target_col 0 queries w0
            = (case process_query cfg (pgs (Suc j)) target_col (PDP_START_ROW + Suc j)
                      (queries ! Suc j) wj' of
                 (Inl e, w2) \<Rightarrow> (Inl e, w2)
               | (Inr u, w2) \<Rightarrow>
                   process_queries cfg pgs target_col (Suc (Suc j))
                     (drop (Suc (Suc j)) queries) w2)"
    using on next_pass by simp
  with pass calls on
  show "\<exists>wj'. process_query cfg (pgs j) target_col (PDP_START_ROW + j) (queries ! j) wj
                              = (Inr (), wj')
                       \<and> sheet_calls wj'
                           = sheet_calls wj @ [UpdateCell (PDP_START_ROW + j) target_col ''CAPTCHA FAILED'']
                       \<and> process_queries cfg pgs target_col 0 queries w0
                           = process_queries cfg pgs target_col (Suc j) (drop (Suc j) queries) wj'
                       \<and> (Suc j < length queries \<longrightarrow>
                            process_queries cfg pgs target_col 0 queries w0
                              = (case process_query cfg (pgs (Suc j)) target_col
                                        (PDP_START_ROW + Suc j) (queries ! Suc j) wj' of
                                   (Inl e, w2) \<Rightarrow> (Inl e, w2)
                                 | (Inr u, w2) \<Rightarrow>
                                     process_queries cfg pgs target_col (Suc (Suc j))
                                       (drop (Suc (Suc j)) queries) w2))"
    by blast
qed

text \<open>
  The witness: of two queries, the first meets a block page whose markers stay. The clock
  reads 0, 1, 2 and 3 seconds at the four evaluations of the loop condition and the timeout
  is 3 seconds: the handler polls three times, sends one notification and returns false; the
  whole loop returns without an exception, with \<open>CAPTCHA FAILED\<close> in row 4 and the count of
  the second query in row 5. In the last run the notification takes four seconds of a
  timeout of five: the handler gives up after two polls although the page would be clear
  at the third.
\<close>

theorem captcha_episode_witness:
  "0 < length [''first query'', ''second query'']
   \<and> strip ([''first query'', ''second query''] ! 0) \<noteq> []
   \<and> nav_result (example_pages_blocked 0) = None \<and> box_result (example_pages_blocked 0) = None
   \<and> blocked (loaded_source (example_pages_blocked 0))
   \<and> write_result (example_pages_blocked 0) = None
   \<and> \<not> (\<exists>n. polls_in_time example_config (captcha_clock (example_pages_blocked 0)) n
             \<and> \<not> blocked (captcha_source (example_pages_blocked 0) n))
   \<and> process_queries example_config example_pages_blocked 7 0
         (take 0 [''first query'', ''second query'']) example_world = (Inr (), example_world)
   \<and> (\<exists>w'. handle_captcha example_config example_page_blocked ''first query'' example_world
             = (False, w')
          \<and> emails w' = [(captcha_subject, captcha_body ''first query'')]
          \<and> browser_ops w' = [PageSource, PageSource, PageSource])
   \<and> (\<exists>w1 w'. process_query example_config (example_pages_blocked 0) 7 (PDP_START_ROW + 0)
                  ''first query'' example_world = (Inr (), w1)
          \<and> sheet_calls w1 = [UpdateCell 4 7 ''CAPTCHA FAILED'']
          \<and> process_queries example_config example_pages_blocked 7 0
                [''first query'', ''second query''] example_world
              = process_queries example_config example_pages_blocked 7 (Suc 0) [''second query''] w1
          \<and> process_queries example_config example_pages_blocked 7 0
                [''first query'', ''second query''] example_world = (Inr (), w')
          \<and> sheet_calls w' = [UpdateCell 4 7 ''CAPTCHA FAILED'', UpdateCell 5 7 ''71,60,000'']
          \<and> emails w' = [(captcha_subject, captcha_body ''first query'')])
   \<and> (\<exists>w'. handle_captcha example_config_slow example_page_slow ''first query'' example_world
             = (False, w')
          \<and> \<not> blocked (captcha_source example_page_slow 2)
          \<and> browser_ops w' = [PageSource, PageSource])"
proof -
  let ?qs = "[''first query'', ''second query'']"
  note t = captcha_episode
    [where queries = ?qs and j = 0 and pgs = example_pages_blocked and cfg = example_config
       and target_col = 7 and w0 = example_world and pg = example_page_blocked
       and query = "''first query''" and w = example_world]
  note s = captcha_episode
    [where cfg = example_config_slow and pg = example_page_slow
       and query = "''first query''" and w = example_world, THEN conjunct1]
  have pg0: "example_pages_blocked 0 = example_page_blocked"
    by (simp add: example_pages_blocked_def)
  have blk: "\<And>n. blocked (captcha_source example_page_blocked n)"
    by (simp add: blocked_def example_page_blocked_def example_page_def)
  have a: "0 < length ?qs" by simp
  have b: "strip (?qs ! 0) \<noteq> []" by (simp add: strip_def is_space_def)
  have c: "nav_result (example_pages_blocked 0) = None \<and> box_result (example_pages_blocked 0) = None
           \<and> blocked (loaded_source (example_pages_blocked 0))
           \<and> write_result (example_pages_blocked 0) = None"
    by (simp add: pg0 blocked_def example_page_blocked_def example_page_def)
  have d: "\<forall>n. polls_in_time example_config (captcha_clock (example_pages_blocked 0)) n
                 \<longrightarrow> blocked (captcha_source (example_pages_blocked 0) n)"
    using blk by (simp add: pg0)
  have r: "process_queries example_config example_pages_blocked 7 0 (take 0 ?qs) example_world
             = (Inr (), example_world)" by simp
  have h: "0 < length ?qs \<and> strip (?qs ! 0) \<noteq> [] \<and> nav_result (example_pages_blocked 0) = None
        \<and> box_result (example_pages_blocked 0) = None
        \<and> blocked (loaded_source (example_pages_blocked 0))
        \<and> write_result (example_pages_blocked 0) = None
        \<and> (\<forall>n. polls_in_time example_config (captcha_clock (example_pages_blocked 0)) n
                 \<longrightarrow> blocked (captcha_source (example_pages_blocked 0) n))"
    using a b c d by blast
  from t [THEN conjunct2, rule_format, OF h, THEN conjunct2, rule_format, OF r]
  obtain w1 where
    pass: "process_query example_config (example_pages_blocked 0) 7 (PDP_START_ROW + 0) (?qs ! 0)
             example_world = (Inr (), w1)"
    and calls: "sheet_calls w1
                  = sheet_calls example_world @ [UpdateCell (PDP_START_ROW + 0) 7 ''CAPTCHA FAILED'']"
    and on: "process_queries example_config example_pages_blocked 7 0 ?qs example_world
               = process_queries example_config example_pages_blocked 7 (Suc 0)
                   (drop (Suc 0) ?qs) w1"
    by blast
  have calls': "sheet_calls w1 = [UpdateCell 4 7 ''CAPTCHA FAILED'']"
    using calls by (simp add: example_world_def PDP_START_ROW_def)
  obtain w' where
    whole: "process_queries example_config example_pages_blocked 7 0 ?qs example_world = (Inr (), w')"
    and written: "sheet_calls w' = [UpdateCell 4 7 ''CAPTCHA FAILED'', UpdateCell 5 7 ''71,60,000'']"
    and mails: "emails w' = [(captcha_subject, captcha_body ''first query'')]"
    by (simp add: example_pages_blocked_def example_page_blocked_def run_defs example_defs
          alert_once_simps effect_simps)
  have loop: "\<exists>w1 w'. process_query example_config (example_pages_blocked 0) 7 (PDP_START_ROW + 0)
                  ''first query'' example_world = (Inr (), w1)
          \<and> sheet_calls w1 = [UpdateCell 4 7 ''CAPTCHA FAILED'']
          \<and> process_queries example_config example_pages_blocked 7 0 ?qs example_world
              = process_queries example_config example_pages_blocked 7 (Suc 0) [''second query''] w1
          \<and> process_queries example_config example_pages_blocked 7 0 ?qs example_world = (Inr (), w')
          \<and> sheet_calls w' = [UpdateCell 4 7 ''CAPTCHA FAILED'', UpdateCell 5 7 ''71,60,000'']
          \<and> emails w' = [(captcha_subject, captcha_body ''first query'')]"
    using pass calls' on whole written mails by auto
  have hc: "\<exists>w'. handle_captcha example_config example_page_blocked ''first query'' example_world
             = (False, w')
          \<and> emails w' = [(captcha_subject, captcha_body ''first query'')]
          \<and> browser_ops w' = [PageSource, PageSource, PageSource]"
    by (simp add: handle_captcha_def blocked_def alert_once_def
        send_error_email_def logging_def browser_def
        example_defs example_page_blocked_def)
  have slow: "\<exists>w'. handle_captcha example_config_slow example_page_slow ''first query'' example_world
             = (False, w')
          \<and> \<not> blocked (captcha_source example_page_slow 2)
          \<and> browser_ops w' = [PageSource, PageSource]"
    using s
    by (simp add: handle_captcha_def blocked_def alert_once_def
        send_error_email_def logging_def browser_def
        example_defs example_page_slow_def example_config_slow_def)
  have nd: "\<not> (\<exists>n. polls_in_time example_config (captcha_clock (example_pages_blocked 0)) n
             \<and> \<not> blocked (captcha_source (example_pages_blocked 0) n))"
    using d by blast
  from a b c nd r hc loop slow show ?thesis by blast
qed

section \<open>What leaves the driver variable and the critical log alone\<close>

lemma criticals_simps:
  "criticals (logging lvl m w) = (if lvl = CRITICAL then Suc (criticals w) else criticals w)"
  "criticals (browser b w) = criticals w"
  "criticals (send_error_email cfg s t w) = criticals w"
  "criticals (alert_once cfg keyword a w) = criticals w"
  "criticals (ws_update_cell r c v w) = criticals w"
  "criticals (ws_insert_cols c w) = criticals w"
  "criticals (w\<lparr>driver := d\<rparr>) = criticals w"
  by (simp_all add: criticals_def effect_simps alert_once_simps)

lemma captcha_loop_quiet:
  "driver (snd (captcha_loop cfg pg keyword k readings alert_sent w)) = driver w
   \<and> criticals (snd (captcha_loop cfg pg keyword k readings alert_sent w)) = criticals w"
  by (induction cfg pg keyword k readings alert_sent w rule: captcha_loop.induct)
     (simp_all add: effect_simps alert_once_simps criticals_simps)

lemma handle_captcha_quiet:
  "handle_captcha cfg pg keyword w = (b, w') \<Longrightarrow>
     driver w' = driver w \<and> criticals w' = criticals w"
  using captcha_loop_quiet [of cfg pg keyword 0 "captcha_clock pg" False
      "logging WARNING ''!!! CAPTCHA DETECTED !!! Pausing script and waiting for manual intervention.'' w"]
  by (simp add: handle_captcha_def effect_simps criticals_simps)

lemma find_and_type_quiet:
  "find_and_type_in_search_box pg q w = (r, w') \<Longrightarrow>
     driver w' = driver w \<and> criticals w' = criticals w"
  by (auto simp: find_and_type_in_search_box_def effect_simps criticals_simps
        split: option.splits if_splits)

lemma scrape_except_quiet:
  "scrape_except pg e w = (r, w') \<Longrightarrow> driver w' = driver w \<and> criticals w' = criticals w"
  by (auto simp: scrape_except_def effect_simps criticals_simps split: if_splits)

lemma scrape_result_count_quiet:
  "scrape_result_count pg w = (r, w') \<Longrightarrow> driver w' = driver w \<and> criticals w' = criticals w"
  by (auto simp: scrape_result_count_def effect_simps criticals_simps
        split: option.splits sum.splits if_splits dest!: scrape_except_quiet)

lemma write_row_quiet:
  "write_row pg current_row target_col v w = (res, w') \<Longrightarrow>
     driver w' = driver w \<and> criticals w' = criticals w"
  by (auto simp: write_row_def effect_simps criticals_simps split: option.splits)

lemma process_query_quiet:
  assumes "process_query cfg pg target_col current_row query w = (res, w')"
  shows "driver w' = driver w \<and> criticals w' = criticals w"
  using assms
proof (cases rule: process_query_cases)
  case blank
  from write_row_quiet [OF blank(2)] show ?thesis by (simp add: effect_simps criticals_simps)
next
  case (nav e)
  then show ?thesis by (simp add: effect_simps criticals_simps)
next
  case (box_error e)
  from find_and_type_quiet [OF box_error(3)] show ?thesis by (simp add: effect_simps criticals_simps)
next
  case skip
  from find_and_type_quiet [OF skip(3)] show ?thesis by (simp add: effect_simps criticals_simps)
next
  case (captcha_failed w1 w2)
  from find_and_type_quiet [OF captcha_failed(3)] handle_captcha_quiet [OF captcha_failed(5)]
    write_row_quiet [OF captcha_failed(6)]
  show ?thesis by (simp add: effect_simps criticals_simps)
next
  case (captcha_solved w1 w2 rc w3)
  from find_and_type_quiet [OF captcha_solved(3)] handle_captcha_quiet [OF captcha_solved(5)]
    scrape_result_count_quiet [OF captcha_solved(6)] write_row_quiet [OF captcha_solved(7)]
  show ?thesis by (simp add: effect_simps criticals_simps)
next
  case (scrape w1 rc w2)
  from find_and_type_quiet [OF scrape(3)] scrape_result_count_quiet [OF scrape(5)]
    write_row_quiet [OF scrape(6)]
  show ?thesis by (simp add: effect_simps criticals_simps)
qed

lemma process_queries_quiet:
  "process_queries cfg pgs target_col i queries w = (res, w') \<Longrightarrow>
     driver w' = driver w \<and> criticals w' = criticals w"
proof (induction queries arbitrary: i w)
  case Nil
  then show ?case by simp
next
  case (Cons query rest)
  obtain r1 w1 where
    one: "process_query cfg (pgs i) target_col (PDP_START_ROW + i) query w = (r1, w1)"
    by (cases "process_query cfg (pgs i) target_col (PDP_START_ROW + i) query w")
  note q = process_query_quiet [OF one]
  show ?case
  proof (cases r1)
    case (Inl e)
    with Cons.prems one q show ?thesis by auto
  next
    case (Inr u)
    with Cons.prems one have "process_queries cfg pgs target_col (Suc i) rest w1 = (res, w')"
      by simp
    from Cons.IH [OF this] q show ?thesis by simp
  qed
qed

section \<open>The top-level handler\<close>

lemma prepare_quiet:
  "prepare_sheet_and_get_target_column today w = (r, w') \<Longrightarrow>
     driver w' = driver w \<and> criticals w' = criticals w \<and> browser_ops w' = browser_ops w"
  by (auto simp: prepare_sheet_and_get_target_column_def Let_def effect_simps criticals_simps
        split: if_splits)

lemma main_try_quiet:
  assumes run: "main_try cfg env w = (res, w1)" and none: "driver w = DriverNone"
  shows "criticals w1 = criticals w
         \<and> (driver w1 = DriverRunning \<or> driver w1 = DriverNone \<and> browser_ops w1 = browser_ops w)"
proof -
  obtain r0 w0 where p: "prepare_sheet_and_get_target_column (now env) w = (r0, w0)"
    by (cases "prepare_sheet_and_get_target_column (now env) w")
  note q0 = prepare_quiet [OF p]
  show ?thesis
  proof (cases "connect_result env = None \<and> (\<exists>c. r0 = Inr c) \<and> fetch_result env = None
                \<and> webdriver_result env = None")
    case True
    then obtain c where c: "r0 = Inr c" by blast
    from run True p c have
      "process_queries cfg (pages env) c 0
         (queries_of (get_values (sheet w0) PDP_QUERIES_COLUMN PDP_START_ROW PDP_END_ROW))
         (w0\<lparr>driver := DriverRunning\<rparr>) = (res, w1)"
      by (simp add: main_try_def Let_def)
    from process_queries_quiet [OF this] q0 show ?thesis
      by (simp add: criticals_simps)
  next
    case False
    with run p q0 none show ?thesis
      by (cases r0) (auto simp: main_try_def Let_def split: option.splits)
  qed
qed

text \<open>
  Claim C6, as stated, fails: with notifications switched off in the configuration, a run
  that crashes while connecting to the spreadsheet logs the failure and sends no email.
\<close>

theorem crash_email_counterexample:
  "\<exists>w'. main example_config_no_email example_env_no_connect example_world = (None, w')
      \<and> logs w' = [(CRITICAL, crash_log connect_exn)]
      \<and> emails w' = []"
  by (simp add: main_def main_try_def main_except_def main_finally_def send_error_email_def
        logging_def example_config_no_email_def example_env_no_connect_def connect_exn_def
        example_defs)

text \<open>
  Claim C6, amended. Every run returns from \<open>main\<close> with no exception leaving it, so that
  the process exits with status 0. When the \<open>try\<close> body raises \<open>e\<close>, in the setup or in the
  loop, the handler runs once: it adds one CRITICAL log record, which holds the message and
  the traceback of \<open>e\<close>, and, when email notifications are enabled, sends one crash email
  with the same content; with notifications disabled no email is sent. When the body does
  not raise, nothing is logged at that level and no email is sent by the handler. On both
  paths the browser is quit when it had been started, and was never used otherwise.
\<close>

theorem run_always_cleans_up:
  "\<exists>res w1 w'. main_try cfg env (w\<lparr>driver := DriverNone\<rparr>) = (res, w1)
           \<and> main cfg env w = (None, w') \<and> run_script cfg env w = (0, w')
           \<and> (case res of
                 Inl e \<Rightarrow> logs w' = logs w1 @ [(CRITICAL, crash_log e)]
                          \<and> criticals w' = Suc (criticals w)
                          \<and> emails w' = emails w1 @
                              (if ENABLE_EMAIL_NOTIFICATIONS cfg
                               then [(crash_subject, crash_body e)] else [])
               | Inr u \<Rightarrow> logs w' = logs w1 \<and> criticals w' = criticals w \<and> emails w' = emails w1)
           \<and> (if driver w1 = DriverRunning
               then driver w' = DriverQuit \<and> browser_ops w' = browser_ops w1 @ [Quit]
               else driver w' = DriverNone \<and> browser_ops w' = browser_ops w)"
proof -
  let ?w0 = "w\<lparr>driver := DriverNone\<rparr>"
  obtain res w1 where run: "main_try cfg env ?w0 = (res, w1)"
    by (cases "main_try cfg env ?w0")
  have q: "criticals w1 = criticals w
           \<and> (driver w1 = DriverRunning \<or> driver w1 = DriverNone \<and> browser_ops w1 = browser_ops w)"
    using main_try_quiet [OF run] by (simp add: criticals_simps)
  let ?w' = "main_finally (case res of Inl e \<Rightarrow> main_except cfg e w1 | Inr u \<Rightarrow> w1)"
  have m: "main cfg env w = (None, ?w')"
    using run by (cases res) (simp_all add: main_def every_class_is_Exception)
  have s: "run_script cfg env w = (0, ?w')" using m by (simp add: run_script_def)
  have handler: "case res of
                 Inl e \<Rightarrow> logs ?w' = logs w1 @ [(CRITICAL, crash_log e)]
                          \<and> criticals ?w' = Suc (criticals w)
                          \<and> emails ?w' = emails w1 @
                              (if ENABLE_EMAIL_NOTIFICATIONS cfg
                               then [(crash_subject, crash_body e)] else [])
               | Inr u \<Rightarrow> logs ?w' = logs w1 \<and> criticals ?w' = criticals w \<and> emails ?w' = emails w1"
    using q
    by (cases res)
       (simp_all add: main_finally_def main_except_def effect_simps criticals_simps criticals_def)
  have cleanup: "if driver w1 = DriverRunning
               then driver ?w' = DriverQuit \<and> browser_ops ?w' = browser_ops w1 @ [Quit]
               else driver ?w' = DriverNone \<and> browser_ops ?w' = browser_ops w"
    using q
    by (cases res) (auto simp: main_finally_def main_except_def effect_simps)
  from run m s handler cleanup show ?thesis by blast
qed

text \<open>
  The witnesses: a run that crashes while connecting to the spreadsheet, with notifications
  enabled, and a run in which the CAPTCHA poll interval is zero and the markers of the block
  page stay until the clock passes the timeout.
\<close>

theorem run_always_cleans_up_witness:
  "(\<exists>w1 w'. main_try example_config example_env_no_connect (example_world\<lparr>driver := DriverNone\<rparr>)
                 = (Inl connect_exn, w1)
          \<and> main example_config example_env_no_connect example_world = (None, w')
          \<and> run_script example_config example_env_no_connect example_world = (0, w')
          \<and> logs w' = logs w1 @ [(CRITICAL, crash_log connect_exn)]
          \<and> emails w' = emails w1 @ [(crash_subject, crash_body connect_exn)]
          \<and> driver w' = DriverNone \<and> browser_ops w' = browser_ops example_world)
   \<and> (\<exists>w'. run_script (example_config\<lparr>CAPTCHA_CHECK_INTERVAL := 0\<rparr>)
               (example_env\<lparr>pages := example_pages_blocked\<rparr>) example_world = (0, w'))"
proof -
  have e: "ENABLE_EMAIL_NOTIFICATIONS example_config" by (simp add: example_config_def)
  from run_always_cleans_up [of example_config example_env_no_connect example_world]
  obtain res w1 w' where
    run: "main_try example_config example_env_no_connect (example_world\<lparr>driver := DriverNone\<rparr>)
            = (res, w1)"
    and m: "main example_config example_env_no_connect example_world = (None, w')"
    and s: "run_script example_config example_env_no_connect example_world = (0, w')"
    and handler: "case res of
                 Inl e \<Rightarrow> logs w' = logs w1 @ [(CRITICAL, crash_log e)]
                          \<and> criticals w' = Suc (criticals example_world)
                          \<and> emails w' = emails w1 @
                              (if ENABLE_EMAIL_NOTIFICATIONS example_config
                               then [(crash_subject, crash_body e)] else [])
               | Inr u \<Rightarrow> logs w' = logs w1 \<and> criticals w' = criticals example_world
                          \<and> emails w' = emails w1"
    and cleanup: "if driver w1 = DriverRunning
               then driver w' = DriverQuit \<and> browser_ops w' = browser_ops w1 @ [Quit]
               else driver w' = DriverNone \<and> browser_ops w' = browser_ops example_world"
    by blast
  from run have res: "res = Inl connect_exn" and w1: "driver w1 = DriverNone"
    by (auto simp: main_try_def example_env_no_connect_def)
  from handler res e have "logs w' = logs w1 @ [(CRITICAL, crash_log connect_exn)]
          \<and> emails w' = emails w1 @ [(crash_subject, crash_body connect_exn)]"
    by simp
  moreover from cleanup w1 have "driver w' = DriverNone \<and> browser_ops w' = browser_ops example_world"
    by simp
  ultimately have first: "\<exists>w1 w'. main_try example_config example_env_no_connect
                   (example_world\<lparr>driver := DriverNone\<rparr>) = (Inl connect_exn, w1)
          \<and> main example_config example_env_no_connect example_world = (None, w')
          \<and> run_script example_config example_env_no_connect example_world = (0, w')
          \<and> logs w' = logs w1 @ [(CRITICAL, crash_log connect_exn)]
          \<and> emails w' = emails w1 @ [(crash_subject, crash_body connect_exn)]
          \<and> driver w' = DriverNone \<and> browser_ops w' = browser_ops example_world"
    using run m s res by blast
  let ?cfg = "example_config\<lparr>CAPTCHA_CHECK_INTERVAL := 0\<rparr>"
  let ?env = "example_env\<lparr>pages := example_pages_blocked\<rparr>"
  from run_always_cleans_up [of ?cfg ?env example_world]
  have second: "\<exists>w'. run_script ?cfg ?env example_world = (0, w')"
    by blast
  from first second show ?thesis by blast
qed

section \<open>The cells written by the loop\<close>

lemma find_and_type_result:
  assumes "find_and_type_in_search_box pg query w = (r, w')"
  shows "(r = Inr False \<longrightarrow> (\<exists>e. box_result pg = Some e \<and> exn_cls e = TimeoutException))
         \<and> (r = Inr True \<longrightarrow> box_result pg = None)"
  using assms
  by (auto simp: find_and_type_in_search_box_def split: option.splits if_splits)

lemma scrape_result_count_value:
  "fst (scrape_result_count pg w) = fst (scrape_result_count pg ws)"
  by (simp add: scrape_result_count_def scrape_except_def split: option.splits sum.splits)

lemma handle_captcha_value:
  "fst (handle_captcha cfg pg keyword w) = fst (handle_captcha cfg pg keyword ws)"
  by (simp add: handle_captcha_solved_iff)

lemma result_count_value:
  "result_count cfg pg query w = result_count cfg pg query ws"
  using scrape_result_count_value [of pg w ws] handle_captcha_value [of cfg pg query w ws]
  by (simp add: result_count_def)

lemma result_count_blank: "strip query = [] \<Longrightarrow> py_str (result_count cfg pg query ws) = []"
  by (simp add: result_count_def py_str_def)

lemma process_query_writes:
  assumes "process_query cfg pg target_col current_row query w = (Inr (), w')"
  shows "if search_box_missing pg query then sheet_calls w' = sheet_calls w
         else sheet_calls w'
                = sheet_calls w @ [UpdateCell current_row target_col
                                     (py_str (result_count cfg pg query ws))]"
  using assms
proof (cases rule: process_query_cases)
  case blank
  then show ?thesis
    by (auto simp: search_box_missing_def write_row_def result_count_def effect_simps
          split: option.splits)
next
  case (nav e)
  then show ?thesis by simp
next
  case (box_error e)
  then show ?thesis by simp
next
  case skip
  from find_and_type_result [OF skip(3)] find_and_type_sheet [OF skip(3)] skip(1)
  show ?thesis
    by (auto simp: search_box_missing_def effect_simps)
next
  case (captcha_failed w1 w2)
  from find_and_type_result [OF captcha_failed(3)]
  have present: "\<not> search_box_missing pg query" by (simp add: search_box_missing_def)
  from find_and_type_sheet [OF captcha_failed(3)] handle_captcha_sheet [OF captcha_failed(5)]
  have calls: "sheet_calls w2 = sheet_calls w" by (simp add: effect_simps)
  have "\<not> fst (handle_captcha cfg pg query ws)"
    using captcha_failed(5) handle_captcha_value [of cfg pg query ws "browser PageSource w1"]
    by simp
  then have "result_count cfg pg query ws = Some ''CAPTCHA FAILED''"
    using captcha_failed(1,4) by (simp add: result_count_def)
  with write_row_sheet [OF captcha_failed(6)] present calls show ?thesis by auto
next
  case (captcha_solved w1 w2 rc w3)
  from find_and_type_result [OF captcha_solved(3)]
  have present: "\<not> search_box_missing pg query" by (simp add: search_box_missing_def)
  from find_and_type_sheet [OF captcha_solved(3)] handle_captcha_sheet [OF captcha_solved(5)]
    scrape_result_count_sheet [OF captcha_solved(6)]
  have calls: "sheet_calls w3 = sheet_calls w" by (simp add: effect_simps)
  have "fst (handle_captcha cfg pg query ws)"
    using captcha_solved(5) handle_captcha_value [of cfg pg query ws "browser PageSource w1"]
    by simp
  moreover have "fst (scrape_result_count pg ws) = rc"
    using captcha_solved(6) scrape_result_count_value [of pg ws w2] by simp
  ultimately have "result_count cfg pg query ws = rc"
    using captcha_solved(1,4) by (simp add: result_count_def)
  with write_row_sheet [OF captcha_solved(7)] present calls show ?thesis by auto
next
  case (scrape w1 rc w2)
  from find_and_type_result [OF scrape(3)]
  have present: "\<not> search_box_missing pg query" by (simp add: search_box_missing_def)
  from find_and_type_sheet [OF scrape(3)] scrape_result_count_sheet [OF scrape(5)]
  have calls: "sheet_calls w2 = sheet_calls w" by (simp add: effect_simps)
  have "fst (scrape_result_count pg ws) = rc"
    using scrape(5) scrape_result_count_value [of pg ws "browser PageSource w1"] by simp
  then have "result_count cfg pg query ws = rc"
    using scrape(1,4) by (simp add: result_count_def)
  with write_row_sheet [OF scrape(6)] present calls show ?thesis by auto
qed

lemma process_queries_writes:
  assumes "process_queries cfg pgs target_col i queries w = (Inr (), w')"
  shows "\<exists>new. sheet_calls w' = sheet_calls w @ new
           \<and> list_all2 (\<lambda>(k, query) call. \<forall>ws. call = UpdateCell (PDP_START_ROW + k) target_col
                                                      (py_str (result_count cfg (pgs k) query ws)))
               (filter (\<lambda>(k, query). \<not> search_box_missing (pgs k) query)
                  (zip [i..<i + length queries] queries))
               new"
  using assms
proof (induction queries arbitrary: i w)
  case Nil
  then show ?case by simp
next
  case (Cons query rest)
  from Cons.prems obtain w1 where
    one: "process_query cfg (pgs i) target_col (PDP_START_ROW + i) query w = (Inr (), w1)"
    and more: "process_queries cfg pgs target_col (Suc i) rest w1 = (Inr (), w')"
    by (auto split: prod.splits sum.splits)
  from Cons.IH [OF more] obtain new where
    new: "sheet_calls w' = sheet_calls w1 @ new"
    and rel: "list_all2 (\<lambda>(k, query) call. \<forall>ws. call = UpdateCell (PDP_START_ROW + k) target_col
                                                      (py_str (result_count cfg (pgs k) query ws)))
               (filter (\<lambda>(k, query). \<not> search_box_missing (pgs k) query)
                  (zip [Suc i..<Suc i + length rest] rest))
               new"
    by blast
  have z: "zip [i..<i + length (query # rest)] (query # rest)
             = (i, query) # zip [Suc i..<Suc i + length rest] rest"
  proof -
    have "[i..<i + length (query # rest)] = i # [Suc i..<Suc i + length rest]"
      by (simp add: upt_conv_Cons del: upt_Suc)
    then show ?thesis by (simp only: zip_Cons_Cons)
  qed
  show ?case
  proof (cases "search_box_missing (pgs i) query")
    case True
    with process_query_writes [OF one] have "sheet_calls w1 = sheet_calls w" by simp
    with new rel True show ?thesis
      unfolding z by auto
  next
    case False
    let ?call = "UpdateCell (PDP_START_ROW + i) target_col (py_str (result_count cfg (pgs i) query w))"
    have v: "sheet_calls w1 = sheet_calls w @ [?call]"
      using process_query_writes [OF one, of w] False by simp
    have same: "\<forall>ws. ?call = UpdateCell (PDP_START_ROW + i) target_col
                                (py_str (result_count cfg (pgs i) query ws))"
    proof
      fix ws
      show "?call = UpdateCell (PDP_START_ROW + i) target_col
                      (py_str (result_count cfg (pgs i) query ws))"
        using result_count_value [of cfg "pgs i" query w ws] by simp
    qed
    have "sheet_calls w' = sheet_calls w @ (?call # new)"
      using new v by simp
    moreover have "list_all2 (\<lambda>(k, query) call. \<forall>ws. call = UpdateCell (PDP_START_ROW + k) target_col
                                                      (py_str (result_count cfg (pgs k) query ws)))
               (filter (\<lambda>(k, query). \<not> search_box_missing (pgs k) query)
                  (zip [i..<i + length (query # rest)] (query # rest)))
               (?call # new)"
      unfolding z using False rel same by simp
    ultimately show ?thesis by blast
  qed
qed

lemma queries_of_no_empty:
  "list_all (\<lambda>item. item \<noteq> []) queries_data \<Longrightarrow> queries_of queries_data = map hd queries_data"
  by (simp add: queries_of_def list_all_iff)

text \<open>
  Claim C1, as stated, fails: of two fetched rows, the first one loses its cell because its
  search box is not found, so one cell is written for two fetched rows.
\<close>

theorem rows_written_counterexample:
  "\<exists>w'. process_queries example_config example_pages 7 0
            (queries_of [[''first query''], [''second query'']]) example_world = (Inr (), w')
      \<and> length [[''first query''], [''second query'']] = 2
      \<and> sheet_calls w' = sheet_calls example_world @ [UpdateCell 5 7 ''71,60,000'']"
  by (simp add: queries_of_def example_pages_def run_defs example_defs effect_simps)

text \<open>
  Claim C1, amended. When no row of the fetched range is the empty list, the loop has one
  query per fetched row, in row order, with the blank ones kept. After a run of the loop
  that ends without an exception, the cells written are, in row order, one for each fetched
  row whose pass did not end at the missing search box: the row with index \<open>k\<close> is written
  at spreadsheet row \<open>PDP_START_ROW + k\<close> in the target column, and the value written is
  the string of the result of that row's own query and page, which is the empty string for
  a blank query, \<open>CAPTCHA FAILED\<close> when the CAPTCHA wait of the row fails, and otherwise
  what the scrape of the row's page returns. So the number of cells written is the number
  of fetched rows minus those skipped for a missing search box.
\<close>

theorem rows_written_in_place:
  assumes "list_all (\<lambda>item. item \<noteq> []) queries_data"
    and "process_queries cfg pgs target_col 0 (queries_of queries_data) w = (Inr (), w')"
  shows "queries_of queries_data = map hd queries_data
         \<and> (\<exists>new. sheet_calls w' = sheet_calls w @ new
               \<and> list_all2 (\<lambda>(k, query) call.
                              \<forall>ws. call = UpdateCell (PDP_START_ROW + k) target_col
                                            (py_str (result_count cfg (pgs k) query ws)))
                   (filter (\<lambda>(k, query). \<not> search_box_missing (pgs k) query)
                      (zip [0..<length queries_data] (map hd queries_data)))
                   new
               \<and> length new
                   = length queries_data
                     - length (filter (\<lambda>(k, query). search_box_missing (pgs k) query)
                                (zip [0..<length queries_data] (map hd queries_data))))"
proof -
  have q: "queries_of queries_data = map hd queries_data"
    using assms(1) by (rule queries_of_no_empty)
  let ?rows = "zip [0..<length queries_data] (map hd queries_data)"
  from process_queries_writes [OF assms(2)] obtain new where
    new: "sheet_calls w' = sheet_calls w @ new"
    and rel: "list_all2 (\<lambda>(k, query) call.
                              \<forall>ws. call = UpdateCell (PDP_START_ROW + k) target_col
                                            (py_str (result_count cfg (pgs k) query ws)))
                   (filter (\<lambda>(k, query). \<not> search_box_missing (pgs k) query) ?rows) new"
    unfolding q by auto
  have "length (filter (\<lambda>(k, query). \<not> search_box_missing (pgs k) query) ?rows)
          + length (filter (\<lambda>(k, query). search_box_missing (pgs k) query) ?rows)
        = length ?rows"
    using sum_length_filter_compl [of "\<lambda>(k, query). search_box_missing (pgs k) query" ?rows]
    by (simp add: case_prod_unfold add.commute)
  then have "length new = length queries_data
                     - length (filter (\<lambda>(k, query). search_box_missing (pgs k) query) ?rows)"
    using list_all2_lengthD [OF rel] by simp
  with q new rel show ?thesis by blast
qed

text \<open>
  The witness: three fetched rows, the second one blank, the third one with a block page
  whose markers stay until the timeout. The three cells are written at rows 4, 5 and 6, each
  with the result of its own row.
\<close>

theorem rows_written_in_place_witness:
  "list_all (\<lambda>item. item \<noteq> []) [[''first query''], [''  ''], [''third query'']]
   \<and> (\<exists>w'. process_queries example_config example_pages_mixed 7 0
               (queries_of [[''first query''], [''  ''], [''third query'']]) example_world
             = (Inr (), w')
          \<and> queries_of [[''first query''], [''  ''], [''third query'']]
              = [''first query'', ''  '', ''third query'']
          \<and> py_str (result_count example_config (example_pages_mixed 0) ''first query'' example_world)
              = ''71,60,000''
          \<and> py_str (result_count example_config (example_pages_mixed 1) ''  '' example_world) = []
          \<and> py_str (result_count example_config (example_pages_mixed 2) ''third query'' example_world)
              = ''CAPTCHA FAILED''
          \<and> sheet_calls w'
              = [UpdateCell 4 7 ''71,60,000'', UpdateCell 5 7 [], UpdateCell 6 7 ''CAPTCHA FAILED'']
          \<and> (\<exists>new. sheet_calls w' = sheet_calls example_world @ new \<and> length new = 3 - 0))"
proof -
  let ?qd = "[[''first query''], [''  ''], [''third query'']]"
  have a: "list_all (\<lambda>item. item \<noteq> []) ?qd" by simp
  obtain w' where
    run: "process_queries example_config example_pages_mixed 7 0 (queries_of ?qd) example_world
            = (Inr (), w')"
    by (simp add: queries_of_def example_pages_mixed_def example_page_blocked_def run_defs
          example_defs alert_once_simps effect_simps)
  have none: "filter (\<lambda>(k, query). search_box_missing (example_pages_mixed k) query)
                (zip [0..<length ?qd] (map hd ?qd)) = []"
    by (simp add: search_box_missing_def example_pages_mixed_def example_page_blocked_def
          example_page_def)
  have some: "filter (\<lambda>(k, query). \<not> search_box_missing (example_pages_mixed k) query)
                (zip [0..<length ?qd] (map hd ?qd))
              = [(0, ''first query''), (1, ''  ''), (2, ''third query'')]"
    by (simp add: search_box_missing_def example_pages_mixed_def example_page_blocked_def
          example_page_def upt_conv_Cons del: upt_Suc)
  have r0: "py_str (result_count example_config (example_pages_mixed 0) ''first query'' example_world)
              = ''71,60,000''"
    by (simp add: result_count_def example_pages_mixed_def run_defs example_defs)
  have r1: "py_str (result_count example_config (example_pages_mixed 1) ''  '' example_world) = []"
    by (simp add: result_count_def run_defs)
  have r2: "py_str (result_count example_config (example_pages_mixed 2) ''third query'' example_world)
              = ''CAPTCHA FAILED''"
    by (simp add: result_count_def example_pages_mixed_def example_page_blocked_def run_defs
          example_defs)
  from rows_written_in_place [OF a run] obtain new where
    q: "queries_of ?qd = map hd ?qd"
    and new: "sheet_calls w' = sheet_calls example_world @ new"
    and rel: "list_all2 (\<lambda>(k, query) call.
                              \<forall>ws. call = UpdateCell (PDP_START_ROW + k) 7
                                            (py_str (result_count example_config
                                                       (example_pages_mixed k) query ws)))
                   (filter (\<lambda>(k, query). \<not> search_box_missing (example_pages_mixed k) query)
                      (zip [0..<length ?qd] (map hd ?qd)))
                   new"
    and len: "length new = length ?qd
                 - length (filter (\<lambda>(k, query). search_box_missing (example_pages_mixed k) query)
                             (zip [0..<length ?qd] (map hd ?qd)))"
    by blast
  have g0: "py_str (result_count example_config (example_pages_mixed 0) ''first query'' ws)
              = ''71,60,000''" for ws
    using r0 result_count_value
      [of example_config "example_pages_mixed 0" "''first query''" ws example_world]
    by simp
  have g1: "py_str (result_count example_config (example_pages_mixed (Suc 0)) ''  '' ws) = []" for ws
    by (simp add: result_count_def run_defs)
  have g2: "py_str (result_count example_config (example_pages_mixed 2) ''third query'' ws)
              = ''CAPTCHA FAILED''" for ws
    using r2 result_count_value
      [of example_config "example_pages_mixed 2" "''third query''" ws example_world]
    by simp
  from rel have "new = [UpdateCell 4 7 ''71,60,000'', UpdateCell 5 7 [], UpdateCell 6 7 ''CAPTCHA FAILED'']"
    unfolding some
    by (auto simp: list_all2_Cons1 PDP_START_ROW_def g0 g1 g2)
  with new have calls: "sheet_calls w'
              = [UpdateCell 4 7 ''71,60,000'', UpdateCell 5 7 [], UpdateCell 6 7 ''CAPTCHA FAILED'']"
    by (simp add: example_world_def)
  from len none have "length new = 3 - 0" by simp
  with new have ex: "\<exists>new. sheet_calls w' = sheet_calls example_world @ new \<and> length new = 3 - 0"
    by blast
  from q have q': "queries_of ?qd = [''first query'', ''  '', ''third query'']" by simp
  from a run q' r0 r1 r2 calls ex show ?thesis by blast
qed

section \<open>An empty row inside the fetched range\<close>

text \<open>
  The example worksheet has queries in D4 and D6 and a blank D5. The fetched range is
  \<open>[["first query"], [], ["third query"]]\<close>; the comprehension drops the empty row, the
  loop numbers the two queries left from \<open>PDP_START_ROW\<close>, and the result of the query of
  row 6 is written to row 5.
\<close>

lemma empty_row_shifts_later_results:
  "get_values example_sheet PDP_QUERIES_COLUMN PDP_START_ROW PDP_END_ROW
     = [[''first query''], [], [''third query'']]
   \<and> queries_of [[''first query''], [], [''third query'']] = [''first query'', ''third query'']
   \<and> sheet_calls (snd (main example_config example_env example_world))
       = [InsertCols 7, UpdateCell 2 7 ''25-May-2024'',
          UpdateCell 4 7 ''71,60,000'', UpdateCell 5 7 ''71,60,000'']"
  by code_simp

end
